theory Spec2Isabelle
  imports Complex_Main
begin

section \<open>Text as the cleaning script sees it\<close>

text \<open>
  A Python string is a list of Unicode code points. \<open>ustr\<close> writes an ASCII literal
  as such a list.
\<close>

type_synonym ustring = "nat list"

definition ustr :: "string \<Rightarrow> ustring" where
  "ustr s = map of_char s"

text \<open>
  The whitespace of \<^verbatim>\<open>str.isspace\<close>, \<^verbatim>\<open>str.strip\<close> and the regular expression class
  \<^verbatim>\<open>\s\<close>: U+0009 to U+000D, U+001C to U+0020, U+0085, U+00A0, U+1680, U+2000 to
  U+200A, U+2028, U+2029, U+202F, U+205F and U+3000.
\<close>

definition is_space :: "nat \<Rightarrow> bool" where
  "is_space c = ((9 \<le> c \<and> c \<le> 13) \<or> (28 \<le> c \<and> c \<le> 32) \<or> c = 133 \<or> c = 160 \<or> c = 5760
       \<or> (8192 \<le> c \<and> c \<le> 8202) \<or> c = 8232 \<or> c = 8233 \<or> c = 8239 \<or> c = 8287 \<or> c = 12288)"

text \<open>The regular expression \<^verbatim>\<open>^\s*$\<close>: the text is empty or all whitespace.\<close>

definition blank :: "ustring \<Rightarrow> bool" where
  "blank s = list_all is_space s"

definition strip :: "ustring \<Rightarrow> ustring" where
  "strip s = rev (dropWhile is_space (rev (dropWhile is_space s)))"

section \<open>Cells and data frames\<close>

text \<open>
  A timestamp: its calendar date, the time of day in nanoseconds, and the UTC offset
  in minutes of a time-zone aware value (\<open>None\<close> for a naive one).
\<close>

datatype timestamp =
  Timestamp (year: int) (month: nat) (day: nat) (nanos: nat) (utc_offset: "int option")

text \<open>A cell of a data frame: missing (NaN, NaT), text, a number, or a timestamp.\<close>

datatype cell = NaN | Str ustring | Num real | Dt timestamp

text \<open>
  A data frame: the ordered column labels, and the rows, each with its index label
  and its values in column order.
\<close>

record dataframe =
  columns :: "string list"
  rows :: "(nat \<times> cell list) list"

definition wf :: "dataframe \<Rightarrow> bool" where
  "wf df = (distinct (columns df) \<and> distinct (map fst (rows df))
            \<and> list_all (\<lambda>(i, r). length r = length (columns df)) (rows df))"

datatype error = KeyError string | AttributeError

text \<open>
  What the script takes from Python and from the data frame library, as parameters
  of the model:
  \<^item> the number parser of \<^verbatim>\<open>pd.to_numeric\<close> (\<open>None\<close>: the text does not convert);
  \<^item> for \<^verbatim>\<open>pd.to_datetime\<close>: the guess of a format from one text, the parser for a
    given format, and the parser that is used on each text alone when no format was
    guessed, with the conversions between numbers and timestamps;
  \<^item> the printers behind \<^verbatim>\<open>astype(str)\<close>;
  \<^item> the Unicode character database above U+007F: which code points are cased,
    which are case-ignorable, the lower-case and title-case mappings (one code point
    can map to several), and the value of a decimal digit.
\<close>

record library =
  parse_num :: "ustring \<Rightarrow> real option"
  guess_format :: "ustring \<Rightarrow> string option"
  parse_format :: "string \<Rightarrow> ustring \<Rightarrow> timestamp option"
  parse_any :: "ustring \<Rightarrow> timestamp option"
  num_of_ts :: "timestamp \<Rightarrow> real"
  ts_of_num :: "real \<Rightarrow> timestamp option"
  str_of_num :: "real \<Rightarrow> ustring"
  str_of_ts :: "timestamp \<Rightarrow> ustring"
  uni_cased :: "nat \<Rightarrow> bool"
  case_ignorable :: "nat \<Rightarrow> bool"
  uni_lower :: "nat \<Rightarrow> nat list"
  uni_title :: "nat \<Rightarrow> nat list"
  uni_digit :: "nat \<Rightarrow> nat option"

subsection \<open>Title case\<close>

definition is_cased :: "library \<Rightarrow> nat \<Rightarrow> bool" where
  "is_cased lib c = (if c < 128 then (65 \<le> c \<and> c \<le> 90) \<or> (97 \<le> c \<and> c \<le> 122)
                     else uni_cased lib c)"

definition to_title :: "library \<Rightarrow> nat \<Rightarrow> nat list" where
  "to_title lib c = (if c < 128 then [if 97 \<le> c \<and> c \<le> 122 then c - 32 else c]
                     else uni_title lib c)"

definition to_lower :: "library \<Rightarrow> nat \<Rightarrow> nat list" where
  "to_lower lib c = (if c < 128 then [if 65 \<le> c \<and> c \<le> 90 then c + 32 else c]
                     else uni_lower lib c)"

text \<open>
  The capital sigma U+03A3 is lowered to the final sigma U+03C2 when a cased code
  point precedes it and none follows it, case-ignorable code points being skipped on
  both sides, and to U+03C3 otherwise. \<open>before\<close> is the text before the code point,
  nearest first.
\<close>

definition final_sigma :: "library \<Rightarrow> nat list \<Rightarrow> nat list \<Rightarrow> bool" where
  "final_sigma lib before after =
     (case dropWhile (case_ignorable lib) before of
        [] \<Rightarrow> False
      | b # _ \<Rightarrow> is_cased lib b
          \<and> (case dropWhile (case_ignorable lib) after of
                [] \<Rightarrow> True
              | a # _ \<Rightarrow> \<not> is_cased lib a))"

definition lower_at :: "library \<Rightarrow> nat list \<Rightarrow> nat \<Rightarrow> nat list \<Rightarrow> nat list" where
  "lower_at lib before c after =
     (if c = 931 then [if final_sigma lib before after then 962 else 963]
      else to_lower lib c)"

text \<open>
  \<^verbatim>\<open>str.title\<close>: a code point that follows a cased code point is lowered, any other
  code point is title-cased.
\<close>

fun title_from :: "library \<Rightarrow> nat list \<Rightarrow> ustring \<Rightarrow> ustring" where
  "title_from lib before [] = []"
| "title_from lib before (c # cs) =
     (if (case before of [] \<Rightarrow> False | p # _ \<Rightarrow> is_cased lib p)
      then lower_at lib before c cs else to_title lib c)
     @ title_from lib (c # before) cs"

definition title :: "library \<Rightarrow> ustring \<Rightarrow> ustring" where
  "title lib s = title_from lib [] s"

subsection \<open>Element-wise operations\<close>

fun isna :: "cell \<Rightarrow> bool" where
  "isna NaN = True"
| "isna _ = False"

fun astype_str :: "library \<Rightarrow> cell \<Rightarrow> cell" where
  "astype_str lib NaN = Str (ustr ''nan'')"
| "astype_str lib (Str s) = Str s"
| "astype_str lib (Num x) = Str (str_of_num lib x)"
| "astype_str lib (Dt d) = Str (str_of_ts lib d)"

text \<open>\<^verbatim>\<open>.replace(r'^\s*$', np.nan, regex=True)\<close> touches text cells only.\<close>

fun replace_blank :: "cell \<Rightarrow> cell" where
  "replace_blank (Str s) = (if blank s then NaN else Str s)"
| "replace_blank v = v"

text \<open>\<^verbatim>\<open>lambda x: x.strip().title() if isinstance(x, str) else x\<close>\<close>

fun strip_title :: "library \<Rightarrow> cell \<Rightarrow> cell" where
  "strip_title lib (Str s) = Str (title lib (strip s))"
| "strip_title lib v = v"

text \<open>\<^verbatim>\<open>pd.to_numeric(..., errors='coerce')\<close> on one cell.\<close>

fun to_numeric :: "library \<Rightarrow> cell \<Rightarrow> cell" where
  "to_numeric lib NaN = NaN"
| "to_numeric lib (Num x) = Num x"
| "to_numeric lib (Str s) = (case parse_num lib s of None \<Rightarrow> NaN | Some x \<Rightarrow> Num x)"
| "to_numeric lib (Dt d) = Num (num_of_ts lib d)"

subsection \<open>Dates\<close>

text \<open>
  \<^verbatim>\<open>pd.to_datetime(column, errors='coerce')\<close> works on the whole column. When the
  first non-missing cell is text, a format is guessed from it; if there is one,
  every text of the column is parsed with that one format, and a text that does not
  match it becomes missing. Only when no format is guessed is each text parsed on
  its own.
\<close>

fun first_valid :: "cell list \<Rightarrow> cell option" where
  "first_valid [] = None"
| "first_valid (v # vs) = (if isna v then first_valid vs else Some v)"

datatype parse_mode = ByFormat string | Individually

definition infer_mode :: "library \<Rightarrow> cell list \<Rightarrow> parse_mode" where
  "infer_mode lib col = (case first_valid col of
       Some (Str s) \<Rightarrow> (case guess_format lib s of Some f \<Rightarrow> ByFormat f | None \<Rightarrow> Individually)
     | _ \<Rightarrow> Individually)"

fun parse_text :: "library \<Rightarrow> parse_mode \<Rightarrow> ustring \<Rightarrow> timestamp option" where
  "parse_text lib (ByFormat f) s = parse_format lib f s"
| "parse_text lib Individually s = parse_any lib s"

fun convert_datetime :: "library \<Rightarrow> parse_mode \<Rightarrow> cell \<Rightarrow> cell" where
  "convert_datetime lib m NaN = NaN"
| "convert_datetime lib m (Dt d) = Dt d"
| "convert_datetime lib m (Str s) = (case parse_text lib m s of None \<Rightarrow> NaN | Some d \<Rightarrow> Dt d)"
| "convert_datetime lib m (Num x) = (case ts_of_num lib x of None \<Rightarrow> NaN | Some d \<Rightarrow> Dt d)"

definition to_datetime :: "library \<Rightarrow> cell list \<Rightarrow> cell list" where
  "to_datetime lib col = map (convert_datetime lib (infer_mode lib col)) col"

text \<open>
  The result is a column of timestamps when all its timestamps have the same UTC
  offset. With different offsets it is a column of plain objects, and the \<^verbatim>\<open>.dt\<close>
  accessor of such a column raises.
\<close>

fun offsets :: "cell list \<Rightarrow> int option list" where
  "offsets [] = []"
| "offsets (Dt d # vs) = utc_offset d # offsets vs"
| "offsets (v # vs) = offsets vs"

definition same_offsets :: "cell list \<Rightarrow> bool" where
  "same_offsets col = (case offsets col of [] \<Rightarrow> True | x # xs \<Rightarrow> list_all (\<lambda>y. y = x) xs)"

definition dt_accessor :: "cell list \<Rightarrow> error + cell list" where
  "dt_accessor col = (if same_offsets col then Inr col else Inl AttributeError)"

text \<open>\<^verbatim>\<open>.dt.year\<close> on one cell of a column of timestamps.\<close>

fun dt_year :: "cell \<Rightarrow> cell" where
  "dt_year (Dt d) = Num (of_int (year d))"
| "dt_year _ = NaN"

subsection \<open>Frame operations\<close>

fun col_index :: "string \<Rightarrow> string list \<Rightarrow> nat option" where
  "col_index c [] = None"
| "col_index c (x # xs) = (if x = c then Some 0 else map_option Suc (col_index c xs))"

text \<open>\<^verbatim>\<open>df[c]\<close>: the column as a series, in row order; an absent label raises.\<close>

definition getitem :: "dataframe \<Rightarrow> string \<Rightarrow> error + cell list" where
  "getitem df c = (case col_index c (columns df) of
       None \<Rightarrow> Inl (KeyError c)
     | Some k \<Rightarrow> Inr (map (\<lambda>(i, r). r ! k) (rows df)))"

text \<open>\<^verbatim>\<open>df[c] = s\<close>: overwrites the column in place, or appends a new last column.\<close>

definition setitem :: "dataframe \<Rightarrow> string \<Rightarrow> cell list \<Rightarrow> dataframe" where
  "setitem df c s = (case col_index c (columns df) of
       Some k \<Rightarrow> df\<lparr>rows := map2 (\<lambda>(i, r) v. (i, r[k := v])) (rows df) s\<rparr>
     | None \<Rightarrow> df\<lparr>columns := columns df @ [c],
                  rows := map2 (\<lambda>(i, r) v. (i, r @ [v])) (rows df) s\<rparr>)"

text \<open>
  \<^verbatim>\<open>df.drop_duplicates()\<close>: a row whose values equal those of an earlier row is
  removed; the first occurrence stays, with its index label. Missing equals missing.
\<close>

fun drop_dups :: "cell list list \<Rightarrow> (nat \<times> cell list) list \<Rightarrow> (nat \<times> cell list) list" where
  "drop_dups seen [] = []"
| "drop_dups seen ((i, r) # rs) =
     (if r \<in> set seen then drop_dups seen rs else (i, r) # drop_dups (r # seen) rs)"

definition drop_duplicates :: "dataframe \<Rightarrow> dataframe" where
  "drop_duplicates df = df\<lparr>rows := drop_dups [] (rows df)\<rparr>"

text \<open>
  \<^verbatim>\<open>df.dropna(subset=cs)\<close>: raises on a label that is not a column, otherwise keeps
  the rows that have no missing value in the columns \<open>cs\<close>.
\<close>

fun subset_index :: "string list \<Rightarrow> string list \<Rightarrow> error + nat list" where
  "subset_index cols [] = Inr []"
| "subset_index cols (c # cs) = (case col_index c cols of
       None \<Rightarrow> Inl (KeyError c)
     | Some k \<Rightarrow> (case subset_index cols cs of Inl e \<Rightarrow> Inl e | Inr ks \<Rightarrow> Inr (k # ks)))"

definition dropna :: "string list \<Rightarrow> dataframe \<Rightarrow> error + dataframe" where
  "dropna cs df = (case subset_index (columns df) cs of
       Inl e \<Rightarrow> Inl e
     | Inr ks \<Rightarrow> Inr (df\<lparr>rows := filter (\<lambda>(i, r). list_all (\<lambda>k. \<not> isna (r ! k)) ks) (rows df)\<rparr>))"

text \<open>\<^verbatim>\<open>df.replace(r'^\s*$', np.nan, regex=True)\<close> on the whole frame.\<close>

definition replace_blank_all :: "dataframe \<Rightarrow> dataframe" where
  "replace_blank_all df = df\<lparr>rows := map (\<lambda>(i, r). (i, map replace_blank r)) (rows df)\<rparr>"

text \<open>\<^verbatim>\<open>df.to_csv(path, index=False)\<close>: the header line and the rows, without the index labels.\<close>

definition to_csv :: "dataframe \<Rightarrow> string list \<times> cell list list" where
  "to_csv df = (columns df, map snd (rows df))"

section \<open>The cleaning script\<close>

definition cat_cols :: "string list" where
  "cat_cols = [''type'', ''rating'', ''country'', ''director'', ''cast'', ''listed_in'']"

text \<open>
  The loop over \<open>cat_cols\<close>: a label that is not a column is skipped; otherwise the
  column is converted to text, blank text becomes missing, and every text value is
  stripped and title-cased.
\<close>

fun clean_cols :: "library \<Rightarrow> dataframe \<Rightarrow> string list \<Rightarrow> error + dataframe" where
  "clean_cols lib df [] = Inr df"
| "clean_cols lib df (col # cols) =
     (if col \<in> set (columns df) then
        (case getitem df col of
           Inl e \<Rightarrow> Inl e
         | Inr s \<Rightarrow>
            (let df1 = setitem df col (map replace_blank (map (astype_str lib) s)) in
             case getitem df1 col of
               Inl e \<Rightarrow> Inl e
             | Inr s1 \<Rightarrow> clean_cols lib (setitem df1 col (map (strip_title lib) s1)) cols))
      else clean_cols lib df cols)"

text \<open>
  Lines 9 to 29 of the script, on the frame that \<^verbatim>\<open>read_csv\<close> returned. A label
  that the script indexes without a guard raises when the column is absent, and
  line 26 raises when the parsed dates do not share one UTC offset.
\<close>

definition cleaning :: "library \<Rightarrow> dataframe \<Rightarrow> error + dataframe" where
  "cleaning lib df0 =
     (let df1 = drop_duplicates df0 in
      case dropna [''title'', ''type'', ''release_year''] df1 of
        Inl e \<Rightarrow> Inl e
      | Inr df2 \<Rightarrow>
     (case clean_cols lib df2 cat_cols of
        Inl e \<Rightarrow> Inl e
      | Inr df3 \<Rightarrow>
     (case getitem df3 ''release_year'' of
        Inl e \<Rightarrow> Inl e
      | Inr ry \<Rightarrow>
     (let df4 = setitem df3 ''release_year'' (map (to_numeric lib) ry) in
      case getitem df4 ''date_added'' of
        Inl e \<Rightarrow> Inl e
      | Inr da \<Rightarrow>
     (let df5 = setitem df4 ''date_added'' (to_datetime lib da) in
      case getitem df5 ''date_added'' of
        Inl e \<Rightarrow> Inl e
      | Inr da1 \<Rightarrow>
     (case dt_accessor da1 of
        Inl e \<Rightarrow> Inl e
      | Inr da2 \<Rightarrow>
     (let df6 = setitem df5 ''year_added'' (map dt_year da2) in
      Inr (replace_blank_all df6))))))))"

text \<open>Line 32: the cleaned frame as it is written to the output file.\<close>

definition cleaned_file :: "library \<Rightarrow> dataframe \<Rightarrow> error + string list \<times> cell list list" where
  "cleaned_file lib df0 = (case cleaning lib df0 of Inl e \<Rightarrow> Inl e | Inr df \<Rightarrow> Inr (to_csv df))"

text \<open>\<^verbatim>\<open>df.loc[i, c]\<close>: the cell of the row labelled \<open>i\<close> in column \<open>c\<close>, when both exist.\<close>

definition loc :: "dataframe \<Rightarrow> nat \<Rightarrow> string \<Rightarrow> cell option" where
  "loc df i c = (case col_index c (columns df) of
       None \<Rightarrow> None
     | Some k \<Rightarrow> (case map_of (rows df) i of None \<Rightarrow> None | Some r \<Rightarrow> Some (r ! k)))"

section \<open>Column-wise view of the frame operations\<close>

text \<open>
  \<open>cmap F\<close> applies \<open>F c\<close> to every cell of column \<open>c\<close>. On a well-formed frame
  each element-wise column assignment of the script is such a map.
\<close>

definition cmap :: "(string \<Rightarrow> cell \<Rightarrow> cell) \<Rightarrow> dataframe \<Rightarrow> dataframe" where
  "cmap F df = df\<lparr>rows := map (\<lambda>(i, r). (i, map2 F (columns df) r)) (rows df)\<rparr>"

text \<open>What the loop over \<open>cat_cols\<close> does to one cell of a listed column.\<close>

definition clean_text :: "library \<Rightarrow> cell \<Rightarrow> cell" where
  "clean_text lib v = strip_title lib (replace_blank (astype_str lib v))"

text \<open>
  What lines 15 to 25 do to the cell \<open>v\<close> of column \<open>c\<close>: the three column
  assignments in the order of the script, \<open>m\<close> being the way the dates of the
  column are parsed.
\<close>

definition clean_cell :: "library \<Rightarrow> parse_mode \<Rightarrow> string \<Rightarrow> cell \<Rightarrow> cell" where
  "clean_cell lib m c v =
     (let v1 = (if c \<in> set cat_cols then clean_text lib v else v);
          v2 = (if c = ''release_year'' then to_numeric lib v1 else v1)
      in if c = ''date_added'' then convert_datetime lib m v2 else v2)"

text \<open>Line 26 on one row: the year of the row's \<open>date_added\<close> cell is stored under \<open>year_added\<close>.\<close>

definition add_year :: "string list \<Rightarrow> cell list \<Rightarrow> cell list" where
  "add_year cols r = (case col_index ''date_added'' cols of
       None \<Rightarrow> r
     | Some kd \<Rightarrow> (case col_index ''year_added'' cols of
           Some k \<Rightarrow> r[k := dt_year (r ! kd)]
         | None \<Rightarrow> r @ [dt_year (r ! kd)]))"

definition clean_row :: "library \<Rightarrow> parse_mode \<Rightarrow> string list \<Rightarrow> cell list \<Rightarrow> cell list" where
  "clean_row lib m cols r = map replace_blank (add_year cols (map2 (clean_cell lib m) cols r))"

definition out_columns :: "string list \<Rightarrow> string list" where
  "out_columns cols = (if ''year_added'' \<in> set cols then cols else cols @ [''year_added''])"

text \<open>The test of line 12 on one row: none of the three essential cells is missing.\<close>

definition keep_row :: "string list \<Rightarrow> cell list \<Rightarrow> bool" where
  "keep_row cols r = list_all (\<lambda>c. case col_index c cols of None \<Rightarrow> True | Some k \<Rightarrow> \<not> isna (r ! k))
       [''title'', ''type'', ''release_year'']"

definition required :: "string list" where
  "required = [''title'', ''type'', ''release_year'', ''date_added'']"

text \<open>\<^verbatim>\<open>df.index\<close>: the index labels of the rows, in order.\<close>

definition labels :: "dataframe \<Rightarrow> nat list" where
  "labels df = map fst (rows df)"

text \<open>The value of one output cell as a function of the input cell of the same column.\<close>

definition final_cell :: "library \<Rightarrow> parse_mode \<Rightarrow> string \<Rightarrow> cell \<Rightarrow> cell" where
  "final_cell lib m c v = replace_blank (clean_cell lib m c v)"

text \<open>The cell of a row under a column label, for a row given without its frame.\<close>

definition row_cell :: "string list \<Rightarrow> cell list \<Rightarrow> string \<Rightarrow> cell option" where
  "row_cell cols r c = map_option (\<lambda>k. r ! k) (col_index c cols)"

text \<open>
  The rows that lines 9 and 12 keep, the column \<open>date_added\<close> of these rows as line 25
  finds it, the way its texts are parsed, and whether line 26 can read the years.
\<close>

definition kept_rows :: "dataframe \<Rightarrow> (nat \<times> cell list) list" where
  "kept_rows df = filter (\<lambda>(i, r). keep_row (columns df) r) (drop_dups [] (rows df))"

definition date_column :: "dataframe \<Rightarrow> cell list" where
  "date_column df = map (\<lambda>(i, r). case row_cell (columns df) r ''date_added'' of
                                    None \<Rightarrow> NaN | Some v \<Rightarrow> v) (kept_rows df)"

definition date_mode :: "library \<Rightarrow> dataframe \<Rightarrow> parse_mode" where
  "date_mode lib df = infer_mode lib (date_column df)"

definition dates_ok :: "library \<Rightarrow> dataframe \<Rightarrow> bool" where
  "dates_ok lib df = same_offsets (to_datetime lib (date_column df))"

section \<open>A library instance and tables for evaluation\<close>

text \<open>
  An instance of the library parameters for evaluating the script on concrete tables.
  It is right on what the tables below contain. A text of decimal digits is a number.
  Three date formats are known: \<^verbatim>\<open>%Y-%m-%d\<close> (as in \<^verbatim>\<open>2021-03-15\<close>), \<^verbatim>\<open>%B %d, %Y\<close> (as in
  \<^verbatim>\<open>September 25, 2021\<close>) and \<^verbatim>\<open>%Y-%m-%dT%H:%M:%S%z\<close> (as in \<^verbatim>\<open>2021-03-15T10:00:00+01:00\<close>),
  with days from 1 to 28; other texts (\<^verbatim>\<open>abc\<close>, \<^verbatim>\<open>soon\<close>) do not convert. Of the code
  points above U+007F it knows the letters U+00D3, U+00F3 and U+0130 and the combining
  dot U+0307. The tables hold no number or timestamp in a text column, so the printers
  are not exercised.
\<close>

abbreviation Text :: "string \<Rightarrow> cell" where
  "Text s \<equiv> Str (ustr s)"

definition is_digit :: "nat \<Rightarrow> bool" where
  "is_digit c = (48 \<le> c \<and> c \<le> 57)"

definition decimal :: "ustring \<Rightarrow> nat" where
  "decimal s = foldl (\<lambda>n c. 10 * n + (c - 48)) 0 s"

definition demo_parse_num :: "ustring \<Rightarrow> real option" where
  "demo_parse_num s = (if s \<noteq> [] \<and> list_all is_digit s then Some (real (decimal s)) else None)"

definition iso_date :: "ustring \<Rightarrow> (int \<times> nat \<times> nat) option" where
  "iso_date s =
     (if length s = 10 \<and> s ! 4 = 45 \<and> s ! 7 = 45
         \<and> list_all is_digit (take 4 s) \<and> list_all is_digit (take 2 (drop 5 s))
         \<and> list_all is_digit (drop 8 s)
      then (let y = decimal (take 4 s); m = decimal (take 2 (drop 5 s)); d = decimal (drop 8 s)
            in if 1 \<le> m \<and> m \<le> 12 \<and> 1 \<le> d \<and> d \<le> 28 then Some (int y, m, d) else None)
      else None)"

definition month_names :: "ustring list" where
  "month_names = map ustr [''January'', ''February'', ''March'', ''April'', ''May'', ''June'',
     ''July'', ''August'', ''September'', ''October'', ''November'', ''December'']"

definition long_date :: "ustring \<Rightarrow> (int \<times> nat \<times> nat) option" where
  "long_date s =
     (let name = takeWhile (\<lambda>c. c \<noteq> 32) s;
          rest = drop (Suc (length name)) s;
          dd = takeWhile is_digit rest;
          yy = drop (length dd + 2) rest
      in case map_of (zip month_names [1, 2, 3, 4, 5, 6, 7, 8, 9, 10, 11, 12]) name of
           None \<Rightarrow> None
         | Some m \<Rightarrow>
             if dd \<noteq> [] \<and> take 2 (drop (length dd) rest) = [44, 32]
                \<and> length yy = 4 \<and> list_all is_digit yy
                \<and> 1 \<le> decimal dd \<and> decimal dd \<le> 28
             then Some (int (decimal yy), m, decimal dd) else None)"

definition iso_offset :: "ustring \<Rightarrow> timestamp option" where
  "iso_offset s =
     (if length s = 25 \<and> s ! 10 = 84 \<and> s ! 13 = 58 \<and> s ! 16 = 58
         \<and> (s ! 19 = 43 \<or> s ! 19 = 45) \<and> s ! 22 = 58
         \<and> list_all is_digit (take 2 (drop 11 s)) \<and> list_all is_digit (take 2 (drop 14 s))
         \<and> list_all is_digit (take 2 (drop 17 s)) \<and> list_all is_digit (take 2 (drop 20 s))
         \<and> list_all is_digit (drop 23 s)
      then (case iso_date (take 10 s) of
              None \<Rightarrow> None
            | Some (y, m, d) \<Rightarrow>
                (let secs = (decimal (take 2 (drop 11 s)) * 60 + decimal (take 2 (drop 14 s))) * 60
                            + decimal (take 2 (drop 17 s));
                     off = int (decimal (take 2 (drop 20 s)) * 60 + decimal (drop 23 s))
                 in Some (Timestamp y m d (secs * 1000000000)
                            (Some (if s ! 19 = 43 then off else - off)))))
      else None)"

definition naive :: "int \<times> nat \<times> nat \<Rightarrow> timestamp" where
  "naive x = (case x of (y, m, d) \<Rightarrow> Timestamp y m d 0 None)"

definition demo_guess_format :: "ustring \<Rightarrow> string option" where
  "demo_guess_format s =
     (if iso_date s \<noteq> None then Some ''%Y-%m-%d''
      else if long_date s \<noteq> None then Some ''%B %d, %Y''
      else if iso_offset s \<noteq> None then Some ''%Y-%m-%dT%H:%M:%S%z''
      else None)"

definition demo_parse_format :: "string \<Rightarrow> ustring \<Rightarrow> timestamp option" where
  "demo_parse_format f s =
     (if f = ''%Y-%m-%d'' then map_option naive (iso_date s)
      else if f = ''%B %d, %Y'' then map_option naive (long_date s)
      else if f = ''%Y-%m-%dT%H:%M:%S%z'' then iso_offset s
      else None)"

definition demo_parse_any :: "ustring \<Rightarrow> timestamp option" where
  "demo_parse_any s =
     (case iso_date s of
        Some x \<Rightarrow> Some (naive x)
      | None \<Rightarrow> (case long_date s of Some x \<Rightarrow> Some (naive x) | None \<Rightarrow> iso_offset s))"

definition demo_lib :: library where
  "demo_lib = \<lparr>parse_num = demo_parse_num, guess_format = demo_guess_format,
               parse_format = demo_parse_format, parse_any = demo_parse_any,
               num_of_ts = (\<lambda>d. 0), ts_of_num = (\<lambda>x. None),
               str_of_num = (\<lambda>x. ustr ''0''), str_of_ts = (\<lambda>d. ustr ''0''),
               uni_cased = (\<lambda>c. c = 211 \<or> c = 243 \<or> c = 304),
               case_ignorable = (\<lambda>c. c = 39 \<or> c = 46 \<or> c = 58 \<or> c = 94 \<or> c = 96 \<or> c = 775),
               uni_lower = (\<lambda>c. if c = 211 then [243] else if c = 304 then [105, 775] else [c]),
               uni_title = (\<lambda>c. if c = 243 then [211] else [c]),
               uni_digit = (\<lambda>c. None)\<rparr>"

text \<open>The name \<^verbatim>\<open>pedro g\<close>, U+00F3, \<^verbatim>\<open>mez\<close>, as it is typed and in title case.\<close>

definition gomez :: ustring where
  "gomez = ustr ''pedro g'' @ [243] @ ustr ''mez''"

definition Gomez :: ustring where
  "Gomez = ustr ''Pedro G'' @ [243] @ ustr ''mez''"

text \<open>
  A raw table: rows 0 and 1 are identical, row 2 has no title, row 3 has a release
  year that is not a number and a date that does not parse, row 4 has no release
  year. In row 5 the director has a letter outside ASCII, and the genre and the description
  are no-break spaces (U+00A0).
\<close>

definition raw_table :: dataframe where
  "raw_table = \<lparr>columns = [''title'', ''type'', ''release_year'', ''date_added'', ''director'',
                           ''listed_in'', ''description''],
     rows = [(0, [Text ''Dark'', Text ''  tv show  '', Text ''2017'', Text ''2021-03-15'', NaN,
                  Text ''  comedy  '', Text ''  '']),
             (1, [Text ''Dark'', Text ''  tv show  '', Text ''2017'', Text ''2021-03-15'', NaN,
                  Text ''  comedy  '', Text ''  '']),
             (2, [NaN, Text ''Movie'', Text ''2019'', Text ''2020-01-05'', Text ''x'',
                  Text ''drama'', Text ''d'']),
             (3, [Text ''Roma'', Text ''movie'', Text ''abc'', Text ''soon'', Text ''  '',
                  Text ''DRAMA'', Text ''A film'']),
             (4, [Text ''Up'', Text ''Movie'', NaN, Text ''2020-01-05'', Text ''pete docter'',
                  Text ''kids'', Text ''d'']),
             (5, [Text ''Coco'', Text ''Movie'', Text ''2017'', Text ''2020-01-05'',
                  Str gomez, Str [160, 160], Str [160]])]\<rparr>"

text \<open>The frame that the script computes from \<open>raw_table\<close>.\<close>

definition cleaned_table :: dataframe where
  "cleaned_table = \<lparr>columns = [''title'', ''type'', ''release_year'', ''date_added'', ''director'',
                               ''listed_in'', ''description'', ''year_added''],
     rows = [(0, [Text ''Dark'', Text ''Tv Show'', Num 2017, Dt (Timestamp 2021 3 15 0 None),
                  Text ''Nan'', Text ''Comedy'', NaN, Num 2021]),
             (3, [Text ''Roma'', Text ''Movie'', NaN, NaN, NaN, Text ''Drama'', Text ''A film'', NaN]),
             (5, [Text ''Coco'', Text ''Movie'', Num 2017, Dt (Timestamp 2020 1 5 0 None),
                  Str Gomez, NaN, NaN, Num 2020])]\<rparr>"

text \<open>A raw table of one row whose release year is not a number, and its cleaned frame.\<close>

definition abc_table :: dataframe where
  "abc_table = \<lparr>columns = [''title'', ''type'', ''release_year'', ''date_added''],
     rows = [(0, [Text ''Roma'', Text ''Movie'', Text ''abc'', Text ''2021-03-15''])]\<rparr>"

definition abc_cleaned :: dataframe where
  "abc_cleaned = \<lparr>columns = [''title'', ''type'', ''release_year'', ''date_added'', ''year_added''],
     rows = [(0, [Text ''Roma'', Text ''Movie'', NaN, Dt (Timestamp 2021 3 15 0 None), Num 2021])]\<rparr>"

text \<open>Two identical rows around a row that has no title.\<close>

definition dup_table :: dataframe where
  "dup_table = \<lparr>columns = [''title'', ''type'', ''release_year'', ''date_added''],
     rows = [(0, [Text ''Roma'', Text ''Movie'', Text ''2017'', Text ''2021-03-15'']),
             (1, [NaN, Text ''Movie'', Text ''2017'', Text ''2021-03-15'']),
             (2, [Text ''Roma'', Text ''Movie'', Text ''2017'', Text ''2021-03-15''])]\<rparr>"

text \<open>
  A raw table that already has a column \<open>year_added\<close>, and a column \<open>notes\<close> outside
  the expected set whose one cell is blank text.
\<close>

definition notes_table :: dataframe where
  "notes_table = \<lparr>columns = [''title'', ''type'', ''release_year'', ''date_added'',
                             ''year_added'', ''notes''],
     rows = [(0, [Text ''Roma'', Text ''Movie'', Text ''2017'', Text ''2021-03-15'', Text ''x'',
                  Text ''  ''])]\<rparr>"

text \<open>A raw table whose cleaned frame has every essential and categorical cell present.\<close>

definition good_table :: dataframe where
  "good_table = \<lparr>columns = [''title'', ''type'', ''release_year'', ''date_added'', ''director''],
     rows = [(0, [Text ''Dark'', Text ''  tv show  '', Text ''2017'', Text ''2021-03-15'', NaN])]\<rparr>"

definition good_cleaned :: dataframe where
  "good_cleaned = \<lparr>columns = [''title'', ''type'', ''release_year'', ''date_added'', ''director'',
                              ''year_added''],
     rows = [(0, [Text ''Dark'', Text ''Tv Show'', Num 2017, Dt (Timestamp 2021 3 15 0 None),
                  Text ''Nan'', Num 2021])]\<rparr>"

text \<open>
  A raw table whose first date is written \<^verbatim>\<open>September 25, 2021\<close> and whose second date
  is written \<^verbatim>\<open>2021-03-15\<close>, and the frame that the script computes from it.
\<close>

definition formats_table :: dataframe where
  "formats_table = \<lparr>columns = [''title'', ''type'', ''release_year'', ''date_added''],
     rows = [(0, [Text ''Dark'', Text ''Movie'', Text ''2017'', Text ''September 25, 2021'']),
             (1, [Text ''Roma'', Text ''Movie'', Text ''2018'', Text ''2021-03-15''])]\<rparr>"


text \<open>A raw table with all four columns whose two dates have different UTC offsets.\<close>

definition offsets_table :: dataframe where
  "offsets_table = \<lparr>columns = [''title'', ''type'', ''release_year'', ''date_added''],
     rows = [(0, [Text ''Dark'', Text ''Movie'', Text ''2017'', Text ''2021-03-15T10:00:00+01:00'']),
             (1, [Text ''Roma'', Text ''Movie'', Text ''2018'', Text ''2021-03-16T10:00:00+02:00''])]\<rparr>"

section \<open>Basic facts\<close>

lemma col_index_None: "col_index c cs = None \<longleftrightarrow> c \<notin> set cs"
  by (induction cs) auto

lemma col_index_Some: "col_index c cs = Some k \<Longrightarrow> k < length cs \<and> cs ! k = c"
  by (induction cs arbitrary: k) (auto split: if_splits)

lemma col_index_mem: "c \<in> set cs \<Longrightarrow> \<exists>k. col_index c cs = Some k"
  using col_index_None [of c cs] by (cases "col_index c cs") auto

lemma map2_same: "map2 h xs (map g xs) = map (\<lambda>x. h x (g x)) xs"
  by (induction xs) auto

lemma map2_other:
  "length r = length cs \<Longrightarrow> c \<notin> set cs \<Longrightarrow> map2 (\<lambda>c' v. if c' = c then f v else v) cs r = r"
  by (induction r cs rule: list_induct2) auto

lemma upd_as_map2:
  "distinct cs \<Longrightarrow> col_index c cs = Some k \<Longrightarrow> length r = length cs \<Longrightarrow>
   r[k := f (r ! k)] = map2 (\<lambda>c' v. if c' = c then f v else v) cs r"
proof (induction cs arbitrary: k r)
  case Nil
  then show ?case by simp
next
  case (Cons x xs)
  then obtain v vs where r: "r = v # vs" by (cases r) auto
  show ?case
  proof (cases "x = c")
    case True
    with Cons.prems have k: "k = 0" and "c \<notin> set xs" by auto
    then have "map2 (\<lambda>c' v. if c' = c then f v else v) xs vs = vs"
      using Cons.prems(3) r by (simp add: map2_other)
    with True k r show ?thesis by simp
  next
    case False
    with Cons.prems obtain k' where k: "k = Suc k'" "col_index c xs = Some k'" by auto
    with Cons.IH [of k' vs] Cons.prems r False show ?thesis by simp
  qed
qed

lemma setitem_cmap:
  assumes "wf df" "col_index c (columns df) = Some k" "getitem df c = Inr s"
  shows "setitem df c (map f s) = cmap (\<lambda>c' v. if c' = c then f v else v) df"
proof -
  have s: "s = map (\<lambda>(i, r). r ! k) (rows df)" using assms by (simp add: getitem_def)
  have "map2 (\<lambda>(i, r) v. (i, r[k := v])) (rows df) (map f s)
        = map (\<lambda>(i, r). (i, r[k := f (r ! k)])) (rows df)"
    unfolding s by (simp add: map2_same split_beta)
  also have "\<dots> = map (\<lambda>(i, r). (i, map2 (\<lambda>c' v. if c' = c then f v else v) (columns df) r)) (rows df)"
    using assms(1,2) by (auto simp: wf_def list_all_iff intro!: upd_as_map2)
  finally show ?thesis using assms(2) by (simp add: setitem_def cmap_def)
qed

lemma wf_cmap: "wf df \<Longrightarrow> wf (cmap F df)"
  by (auto simp: wf_def cmap_def list_all_iff split_beta comp_def)

lemma columns_cmap: "columns (cmap F df) = columns df"
  by (simp add: cmap_def)


lemma map2_map2: "map2 G cs (map2 F cs r) = map2 (\<lambda>c v. G c (F c v)) cs r"
proof (induction cs arbitrary: r)
  case Nil then show ?case by simp
next
  case (Cons c cs) then show ?case by (cases r) auto
qed

lemma cmap_cmap: "cmap G (cmap F df) = cmap (\<lambda>c v. G c (F c v)) df"
proof -
  have "map ((\<lambda>(i, r). (i, map2 G (columns df) r)) \<circ> (\<lambda>(i, r). (i, map2 F (columns df) r))) (rows df)
      = map (\<lambda>(i, r). (i, map2 (\<lambda>c v. G c (F c v)) (columns df) r)) (rows df)"
    by (rule map_cong [OF refl]) (simp add: split_beta map2_map2)
  then show ?thesis by (simp add: cmap_def)
qed

lemma map2_cong_cols: "(\<And>c. c \<in> set cs \<Longrightarrow> F c = G c) \<Longrightarrow> map2 F cs r = map2 G cs r"
proof (induction cs arbitrary: r)
  case Nil then show ?case by simp
next
  case (Cons c cs) then show ?case by (cases r) auto
qed

lemma cmap_cong: "(\<And>c. c \<in> set (columns df) \<Longrightarrow> F c = G c) \<Longrightarrow> cmap F df = cmap G df"
proof -
  assume h: "\<And>c. c \<in> set (columns df) \<Longrightarrow> F c = G c"
  have m: "map2 F (columns df) r = map2 G (columns df) r" for r
    by (rule map2_cong_cols) (rule h)
  show ?thesis unfolding cmap_def m ..
qed

lemma set_drop_dups: "set (drop_dups seen rs) \<subseteq> set rs"
  by (induction seen rs rule: drop_dups.induct) auto

lemma distinct_drop_dups: "distinct (map fst rs) \<Longrightarrow> distinct (map fst (drop_dups seen rs))"
proof (induction seen rs rule: drop_dups.induct)
  case (1 seen) then show ?case by simp
next
  case (2 seen i r rs)
  have "fst ` set (drop_dups (r # seen) rs) \<subseteq> fst ` set rs"
    using set_drop_dups [of "r # seen" rs] by (rule image_mono)
  moreover have "i \<notin> fst ` set rs" using "2.prems" by simp
  ultimately have "i \<notin> fst ` set (drop_dups (r # seen) rs)" by blast
  with 2 show ?case by simp
qed

lemma wf_drop_duplicates: "wf df \<Longrightarrow> wf (drop_duplicates df)"
proof -
  assume w: "wf df"
  have "\<forall>x \<in> set (drop_dups [] (rows df)). x \<in> set (rows df)"
    using set_drop_dups [of "[]" "rows df"] by blast
  with w show ?thesis
    by (simp add: wf_def drop_duplicates_def distinct_drop_dups list_all_iff)
qed

lemma wf_filter: "wf df \<Longrightarrow> wf (df\<lparr>rows := filter P (rows df)\<rparr>)"
  by (simp add: wf_def list_all_iff distinct_map_filter)

lemma getitem_Inr: "col_index c (columns df) = Some k \<Longrightarrow> \<exists>s. getitem df c = Inr s"
  by (simp add: getitem_def)

lemma assign_cmap:
  assumes "wf df" "c \<in> set (columns df)"
  shows "\<exists>s. getitem df c = Inr s \<and> setitem df c (map f s) = cmap (\<lambda>c' v. if c' = c then f v else v) df"
proof -
  from assms(2) obtain k where k: "col_index c (columns df) = Some k" using col_index_mem by blast
  then obtain s where s: "getitem df c = Inr s" using getitem_Inr by blast
  with setitem_cmap [OF assms(1) k s] show ?thesis by blast
qed

lemma map2_snd: "length r = length cs \<Longrightarrow> map2 (\<lambda>c v. v) cs r = r"
  by (induction r cs rule: list_induct2) auto

lemma cmap_id: "wf df \<Longrightarrow> cmap (\<lambda>c v. v) df = df"
proof -
  assume "wf df"
  then have "map (\<lambda>(i, r). (i, map2 (\<lambda>c v. v) (columns df) r)) (rows df) = rows df"
    by (intro map_idI) (auto simp: wf_def list_all_iff map2_snd)
  then show ?thesis by (simp add: cmap_def)
qed

lemma clean_cols_cmap:
  "wf df \<Longrightarrow> distinct cs \<Longrightarrow>
   clean_cols lib df cs = Inr (cmap (\<lambda>c v. if c \<in> set cs then clean_text lib v else v) df)"
proof (induction cs arbitrary: df)
  case Nil
  then show ?case by (simp add: cmap_id)
next
  case (Cons c cs)
  let ?G = "\<lambda>c' v. if c' \<in> set cs then clean_text lib v else v"
  show ?case
  proof (cases "c \<in> set (columns df)")
    case False
    have "cmap (\<lambda>c' v. if c' \<in> set (c # cs) then clean_text lib v else v) df = cmap ?G df"
      using False by (intro cmap_cong) auto
    with False Cons show ?thesis by simp
  next
    case True
    let ?F1 = "\<lambda>c' v. if c' = c then (replace_blank \<circ> astype_str lib) v else v"
    let ?F2 = "\<lambda>c' v. if c' = c then strip_title lib v else v"
    from assign_cmap [OF Cons.prems(1) True, of "replace_blank \<circ> astype_str lib"]
    obtain s where s: "getitem df c = Inr s" "setitem df c (map (replace_blank \<circ> astype_str lib) s) = cmap ?F1 df"
      by blast
    have wf1: "wf (cmap ?F1 df)" using Cons.prems(1) by (rule wf_cmap)
    from assign_cmap [OF wf1, of c "strip_title lib"] True
    obtain s1 where s1: "getitem (cmap ?F1 df) c = Inr s1" "setitem (cmap ?F1 df) c (map (strip_title lib) s1) = cmap ?F2 (cmap ?F1 df)"
      by (auto simp: columns_cmap)
    have wf2: "wf (cmap ?F2 (cmap ?F1 df))" using wf1 by (rule wf_cmap)
    have "clean_cols lib df (c # cs) = clean_cols lib (cmap ?F2 (cmap ?F1 df)) cs"
      using True s s1 by (simp add: Let_def)
    also have "\<dots> = Inr (cmap ?G (cmap ?F2 (cmap ?F1 df)))"
      using Cons.IH [OF wf2] Cons.prems(2) by simp
    also have "cmap ?G (cmap ?F2 (cmap ?F1 df)) = cmap (\<lambda>c' v. if c' \<in> set (c # cs) then clean_text lib v else v) df"
      using Cons.prems(2) unfolding cmap_cmap by (intro cmap_cong) (auto simp: clean_text_def fun_eq_iff)
    finally show ?thesis .
  qed
qed

lemma dropna_keep:
  assumes "''title'' \<in> set (columns df)" "''type'' \<in> set (columns df)"
    "''release_year'' \<in> set (columns df)"
  shows "dropna [''title'', ''type'', ''release_year''] df
         = Inr (df\<lparr>rows := filter (\<lambda>(i, r). keep_row (columns df) r) (rows df)\<rparr>)"
proof -
  obtain k1 where k1: "col_index ''title'' (columns df) = Some k1"
    using assms(1) col_index_mem by blast
  obtain k2 where k2: "col_index ''type'' (columns df) = Some k2"
    using assms(2) col_index_mem by blast
  obtain k3 where k3: "col_index ''release_year'' (columns df) = Some k3"
    using assms(3) col_index_mem by blast
  show ?thesis by (simp add: dropna_def keep_row_def k1 k2 k3)
qed

lemma year_added_step:
  assumes kd: "col_index ''date_added'' (columns d) = Some kd"
    and s: "getitem d ''date_added'' = Inr s"
  shows "replace_blank_all (setitem d ''year_added'' (map dt_year s))
         = \<lparr>columns = out_columns (columns d),
            rows = map (\<lambda>(i, r). (i, map replace_blank (add_year (columns d) r))) (rows d)\<rparr>"
proof -
  have s': "s = map (\<lambda>(i, r). r ! kd) (rows d)" using kd s by (simp add: getitem_def)
  show ?thesis
  proof (cases "col_index ''year_added'' (columns d)")
    case None
    then have "''year_added'' \<notin> set (columns d)" by (simp add: col_index_None)
    then show ?thesis using None kd
      by (simp add: setitem_def s' map2_same replace_blank_all_def out_columns_def add_year_def
          split_beta comp_def)
  next
    case (Some k)
    then have "''year_added'' \<in> set (columns d)" using col_index_None [of "''year_added''" "columns d"] by simp
    then show ?thesis using Some kd
      by (simp add: setitem_def s' map2_same replace_blank_all_def out_columns_def add_year_def
          split_beta comp_def)
  qed
qed

lemma distinct_cat_cols: "distinct cat_cols"
  by (simp add: cat_cols_def)


lemma getitem_cmap:
  assumes w: "wf df" and k: "col_index c (columns df) = Some k"
  shows "getitem (cmap F df) c = Inr (map (\<lambda>(i, r). F c (r ! k)) (rows df))"
proof -
  have kk: "k < length (columns df)" "columns df ! k = c" using col_index_Some [OF k] by auto
  have "\<And>i r. (i, r) \<in> set (rows df) \<Longrightarrow> map2 F (columns df) r ! k = F c (r ! k)"
  proof -
    fix i r assume "(i, r) \<in> set (rows df)"
    then have "length r = length (columns df)" using w by (auto simp: wf_def list_all_iff)
    then show "map2 F (columns df) r ! k = F c (r ! k)" using kk by simp
  qed
  then have "map (\<lambda>(i, r). map2 F (columns df) r ! k) (rows df) = map (\<lambda>(i, r). F c (r ! k)) (rows df)"
    by (intro map_cong [OF refl]) auto
  then show ?thesis using k by (simp add: getitem_def cmap_def comp_def split_beta)
qed

lemma getitem_date_column:
  assumes kd: "col_index ''date_added'' (columns df) = Some kd"
  shows "map (\<lambda>(i, r). r ! kd) (kept_rows df) = date_column df"
  by (simp add: date_column_def row_cell_def kd)

theorem cleaning_normal_form:
  assumes w: "wf df" and req: "set required \<subseteq> set (columns df)"
  shows "cleaning lib df =
     (if dates_ok lib df
      then Inr \<lparr>columns = out_columns (columns df),
                rows = map (\<lambda>(i, r). (i, clean_row lib (date_mode lib df) (columns df) r))
                         (kept_rows df)\<rparr>
      else Inl AttributeError)"
proof -
  let ?cols = "columns df"
  let ?df1 = "drop_duplicates df"
  let ?df2 = "?df1\<lparr>rows := filter (\<lambda>(i, r). keep_row ?cols r) (rows ?df1)\<rparr>"
  let ?m = "date_mode lib df"
  let ?T = "\<lambda>c v. if c \<in> set cat_cols then clean_text lib v else v"
  let ?N = "\<lambda>c v. if c = ''release_year'' then to_numeric lib v else v"
  let ?D = "\<lambda>c v. if c = ''date_added'' then convert_datetime lib ?m v else v"
  have c1: "columns ?df1 = ?cols" by (simp add: drop_duplicates_def)
  have mem: "''title'' \<in> set ?cols" "''type'' \<in> set ?cols" "''release_year'' \<in> set ?cols"
    "''date_added'' \<in> set ?cols" using req by (auto simp: required_def)
  have w1: "wf ?df1" using w by (rule wf_drop_duplicates)
  have w2: "wf ?df2" using w1 by (rule wf_filter)
  have c2: "columns ?df2 = ?cols" by (simp add: drop_duplicates_def)
  have r2: "rows ?df2 = kept_rows df" by (simp add: kept_rows_def drop_duplicates_def)
  have s2: "dropna [''title'', ''type'', ''release_year''] ?df1 = Inr ?df2"
    using dropna_keep [of ?df1] mem c1 by simp
  have s3: "clean_cols lib ?df2 cat_cols = Inr (cmap ?T ?df2)"
    using clean_cols_cmap [OF w2 distinct_cat_cols] .
  have w3: "wf (cmap ?T ?df2)" using w2 by (rule wf_cmap)
  obtain ry where ry: "getitem (cmap ?T ?df2) ''release_year'' = Inr ry"
    "setitem (cmap ?T ?df2) ''release_year'' (map (to_numeric lib) ry) = cmap ?N (cmap ?T ?df2)"
    using assign_cmap [OF w3, of "''release_year''" "to_numeric lib"] mem(3) c2
    by (auto simp: columns_cmap)
  let ?df4 = "cmap (\<lambda>c v. ?N c (?T c v)) ?df2"
  have d4: "cmap ?N (cmap ?T ?df2) = ?df4" by (rule cmap_cmap)
  have w4: "wf ?df4" using w2 by (rule wf_cmap)
  obtain kd where kd: "col_index ''date_added'' ?cols = Some kd"
    using mem(4) col_index_mem by metis
  have kd2: "col_index ''date_added'' (columns ?df2) = Some kd" using kd c2 by simp
  have da: "getitem ?df4 ''date_added'' = Inr (date_column df)"
    unfolding getitem_cmap [OF w2 kd2] r2 getitem_date_column [OF kd, symmetric]
    by (simp add: cat_cols_def)
  have kd4: "col_index ''date_added'' (columns ?df4) = Some kd" using kd2 by (simp add: columns_cmap)
  have td: "to_datetime lib (date_column df) = map (convert_datetime lib ?m) (date_column df)"
    by (simp add: to_datetime_def date_mode_def)
  have s5: "setitem ?df4 ''date_added'' (to_datetime lib (date_column df)) = cmap ?D ?df4"
    unfolding td using setitem_cmap [OF w4 kd4 da] .
  have d5: "cmap ?D ?df4 = cmap (clean_cell lib ?m) ?df2"
    unfolding cmap_cmap by (rule cmap_cong) (simp add: clean_cell_def fun_eq_iff)
  let ?df5 = "cmap (clean_cell lib ?m) ?df2"
  have c5: "columns ?df5 = ?cols" using c2 by (simp add: columns_cmap)
  have kd5: "col_index ''date_added'' (columns ?df5) = Some kd" using kd c5 by simp
  have "getitem ?df5 ''date_added'' = Inr (map (\<lambda>(i, r). clean_cell lib ?m ''date_added'' (r ! kd)) (rows ?df2))"
    using getitem_cmap [OF w2 kd2] .
  also have "map (\<lambda>(i, r). clean_cell lib ?m ''date_added'' (r ! kd)) (rows ?df2)
      = map (convert_datetime lib ?m) (map (\<lambda>(i, r). r ! kd) (kept_rows df))"
    unfolding r2 by (simp add: clean_cell_def cat_cols_def split_beta comp_def)
  also have "\<dots> = to_datetime lib (date_column df)"
    unfolding getitem_date_column [OF kd] td ..
  finally have da1: "getitem ?df5 ''date_added'' = Inr (to_datetime lib (date_column df))" .
  have ys: "replace_blank_all (setitem ?df5 ''year_added'' (map dt_year (to_datetime lib (date_column df))))
      = \<lparr>columns = out_columns (columns ?df5),
         rows = map (\<lambda>(i, r). (i, map replace_blank (add_year (columns ?df5) r))) (rows ?df5)\<rparr>"
    using year_added_step [OF kd5 da1] .
  have r5: "rows ?df5 = map (\<lambda>(i, r). (i, map2 (clean_cell lib ?m) ?cols r)) (kept_rows df)"
    by (simp add: cmap_def drop_duplicates_def kept_rows_def)
  have fin: "\<lparr>columns = out_columns (columns ?df5),
         rows = map (\<lambda>(i, r). (i, map replace_blank (add_year (columns ?df5) r))) (rows ?df5)\<rparr>
       = \<lparr>columns = out_columns ?cols,
          rows = map (\<lambda>(i, r). (i, clean_row lib ?m ?cols r)) (kept_rows df)\<rparr>"
    unfolding r5 c5 by (simp add: clean_row_def split_beta comp_def)
  show ?thesis
    unfolding cleaning_def Let_def s2 sum.case s3 ry d4 da s5 d5 da1 dt_accessor_def dates_ok_def
    by (simp only: if_distrib [of "case_sum _ _"] sum.case ys fin cong: if_cong)
qed

lemma col_index_append: "col_index c cs = Some k \<Longrightarrow> col_index c (cs @ ds) = Some k"
  by (induction cs arbitrary: k) (auto split: if_splits)


lemma col_index_out: "col_index c cols = Some k \<Longrightarrow> col_index c (out_columns cols) = Some k"
  by (simp add: out_columns_def col_index_append)

lemma col_index_inj:
  "col_index c cs = Some k \<Longrightarrow> col_index d cs = Some k \<Longrightarrow> c = d"
  using col_index_Some by blast

lemma loc_row:
  assumes "wf df" "(i, r) \<in> set (rows df)" "col_index c (columns df) = Some k"
  shows "loc df i c = Some (r ! k)"
proof -
  have "distinct (map fst (rows df))" using assms(1) by (simp add: wf_def)
  then have "map_of (rows df) i = Some r" using assms(2) by (rule map_of_is_SomeI)
  then show ?thesis using assms(3) by (simp add: loc_def)
qed



lemma to_numeric_not_text: "replace_blank (to_numeric lib v) = to_numeric lib v"
  by (cases v) (auto split: option.splits)


lemma clean_cell_release_year: "clean_cell lib m ''release_year'' v = to_numeric lib v"
  by (simp add: clean_cell_def cat_cols_def)

lemma clean_cell_cat: "c \<in> set cat_cols \<Longrightarrow> clean_cell lib m c v = clean_text lib v"
  by (auto simp: clean_cell_def cat_cols_def)

lemma clean_cell_other:
  "c \<notin> set cat_cols \<Longrightarrow> c \<noteq> ''release_year'' \<Longrightarrow> c \<noteq> ''date_added'' \<Longrightarrow> clean_cell lib m c v = v"
  by (simp add: clean_cell_def)

lemma map2_nth: "length r = length cs \<Longrightarrow> k < length cs \<Longrightarrow> map2 F cs r ! k = F (cs ! k) (r ! k)"
  by simp

lemma length_add_year:
  "col_index ''date_added'' cols = Some kd \<Longrightarrow> length r = length cols \<Longrightarrow>
   length (add_year cols r) = length (out_columns cols)"
  using col_index_None [of "''year_added''" cols]
  by (cases "col_index ''year_added'' cols") (auto simp: add_year_def out_columns_def)

lemma length_clean_row:
  "col_index ''date_added'' cols = Some kd \<Longrightarrow> length r = length cols \<Longrightarrow>
   length (clean_row lib m cols r) = length (out_columns cols)"
  by (simp add: clean_row_def length_add_year)

lemma clean_row_nth:
  assumes len: "length r = length cols"
    and kd: "col_index ''date_added'' cols = Some kd"
    and k: "col_index c cols = Some k" and c: "c \<noteq> ''year_added''"
  shows "clean_row lib m cols r ! k = final_cell lib m c (r ! k)"
proof -
  let ?r1 = "map2 (clean_cell lib m) cols r"
  have kl: "k < length cols" "cols ! k = c" using col_index_Some [OF k] by auto
  have r1k: "?r1 ! k = clean_cell lib m c (r ! k)" using len kl by simp
  show ?thesis
  proof (cases "col_index ''year_added'' cols")
    case None
    then show ?thesis using kd len kl r1k
      by (simp add: clean_row_def add_year_def final_cell_def nth_append)
  next
    case (Some ky)
    then have "ky \<noteq> k" using k c col_index_inj by blast
    then show ?thesis using Some kd len kl r1k
      by (simp add: clean_row_def add_year_def final_cell_def)
  qed
qed


lemma required_date_added: "set required \<subseteq> set cols \<Longrightarrow> \<exists>kd. col_index ''date_added'' cols = Some kd"
  by (rule col_index_mem) (auto simp: required_def)

lemma distinct_out_columns: "distinct cols \<Longrightarrow> distinct (out_columns cols)"
  by (simp add: out_columns_def)

lemma wf_out:
  assumes w: "wf df" and req: "set required \<subseteq> set (columns df)"
    and out: "cleaning lib df = Inr out"
  shows "wf out"
proof -
  let ?kept = "filter (\<lambda>(i, r). keep_row (columns df) r) (drop_dups [] (rows df))"
  have o: "out = \<lparr>columns = out_columns (columns df),
                  rows = map (\<lambda>(i, r). (i, clean_row lib (date_mode lib df) (columns df) r)) ?kept\<rparr>"
    using cleaning_normal_form [OF w req, of lib] out by (simp add: kept_rows_def split: if_splits)
  obtain kd where kd: "col_index ''date_added'' (columns df) = Some kd"
    using required_date_added [OF req] by blast
  have sub: "set ?kept \<subseteq> set (rows df)" using set_drop_dups [of "[]" "rows df"] by auto
  have d: "distinct (map fst ?kept)"
    using w by (simp add: wf_def distinct_drop_dups distinct_map_filter)
  have "fst \<circ> (\<lambda>(i, r). (i, clean_row lib (date_mode lib df) (columns df) r)) = (fst :: nat \<times> cell list \<Rightarrow> nat)"
    by (simp add: fun_eq_iff)
  with d have d': "distinct (map fst (rows out))" using o by simp
  have len: "\<And>i r. (i, r) \<in> set ?kept \<Longrightarrow> length r = length (columns df)"
    using sub w by (auto simp: wf_def list_all_iff)
  have l': "list_all (\<lambda>(i, r). length r = length (columns out)) (rows out)"
    unfolding o list_all_iff using len kd by (auto simp: length_clean_row)
  show ?thesis using w d' l' o by (simp add: wf_def distinct_out_columns)
qed

lemma out_label:
  assumes w: "wf df" and req: "set required \<subseteq> set (columns df)"
    and out: "cleaning lib df = Inr out" and i: "i \<in> set (labels out)"
  shows "\<exists>r. (i, r) \<in> set (drop_dups [] (rows df)) \<and> (i, r) \<in> set (rows df)
             \<and> keep_row (columns df) r \<and> length r = length (columns df)
             \<and> (i, clean_row lib (date_mode lib df) (columns df) r) \<in> set (rows out)"
proof -
  let ?kept = "filter (\<lambda>(i, r). keep_row (columns df) r) (drop_dups [] (rows df))"
  have o: "rows out = map (\<lambda>(i, r). (i, clean_row lib (date_mode lib df) (columns df) r)) ?kept"
    using cleaning_normal_form [OF w req, of lib] out by (auto simp: kept_rows_def split: if_splits)
  from i obtain r where r: "(i, r) \<in> set ?kept"
    unfolding labels_def o by (auto simp: split_beta)
  then have a: "(i, r) \<in> set (drop_dups [] (rows df))" "keep_row (columns df) r" by auto
  then have b: "(i, r) \<in> set (rows df)" using set_drop_dups [of "[]" "rows df"] by blast
  then have c: "length r = length (columns df)" using w by (auto simp: wf_def list_all_iff)
  have "(i, clean_row lib (date_mode lib df) (columns df) r) \<in> set (rows out)"
    unfolding o using r by (auto simp: image_iff split_beta intro!: bexI [of _ "(i, r)"])
  with a b c show ?thesis by blast
qed

lemma out_columns_eq:
  assumes "wf df" "set required \<subseteq> set (columns df)" "cleaning lib df = Inr out"
  shows "columns out = out_columns (columns df)"
  using cleaning_normal_form [OF assms(1,2), of lib] assms(3) by (auto split: if_splits)

lemma out_loc:
  assumes w: "wf df" and req: "set required \<subseteq> set (columns df)"
    and out: "cleaning lib df = Inr out"
    and r: "(i, clean_row lib (date_mode lib df) (columns df) r) \<in> set (rows out)" "length r = length (columns df)"
    and k: "col_index c (columns df) = Some k" and c: "c \<noteq> ''year_added''"
  shows "loc out i c = Some (final_cell lib (date_mode lib df) c (r ! k))"
proof -
  obtain kd where kd: "col_index ''date_added'' (columns df) = Some kd"
    using required_date_added [OF req] by blast
  have "col_index c (columns out) = Some k"
    using out_columns_eq [OF w req out] k by (simp add: col_index_out)
  then have "loc out i c = Some (clean_row lib (date_mode lib df) (columns df) r ! k)"
    using loc_row [OF wf_out [OF w req out] r(1)] by simp
  then show ?thesis using clean_row_nth [OF r(2) kd k c] by simp
qed


section \<open>Evaluation of the script on the example tables\<close>

lemma ustr_eq_iff: "ustr a = ustr b \<longleftrightarrow> a = b"
  by (simp add: ustr_def inj_map_eq_map inj_on_def)

lemma ustr_Nil_iff: "ustr a = [] \<longleftrightarrow> a = []"
  by (simp add: ustr_def)

lemma demo_parse_num_2017: "demo_parse_num (ustr ''2017'') = Some 2017"
  by (simp add: demo_parse_num_def is_digit_def decimal_def ustr_def)

lemma demo_parse_num_2018: "demo_parse_num (ustr ''2018'') = Some 2018"
  by (simp add: demo_parse_num_def is_digit_def decimal_def ustr_def)

lemma demo_parse_num_abc: "demo_parse_num (ustr ''abc'') = None"
  by (simp add: demo_parse_num_def is_digit_def ustr_def)

lemma iso_date_0315: "iso_date (ustr ''2021-03-15'') = Some (2021, 3, 15)"
  by (simp add: iso_date_def is_digit_def decimal_def ustr_def)

lemma iso_date_0105: "iso_date (ustr ''2020-01-05'') = Some (2020, 1, 5)"
  by (simp add: iso_date_def is_digit_def decimal_def ustr_def)

lemma iso_date_soon: "iso_date (ustr ''soon'') = None"
  by (simp add: iso_date_def ustr_def)

lemma long_date_soon: "long_date (ustr ''soon'') = None"
  by (simp add: long_date_def month_names_def ustr_def)

lemma iso_offset_soon: "iso_offset (ustr ''soon'') = None"
  by (simp add: iso_offset_def ustr_def)

lemma iso_date_sept: "iso_date (ustr ''September 25, 2021'') = None"
  by (simp add: iso_date_def ustr_def)

lemma long_date_sept: "long_date (ustr ''September 25, 2021'') = Some (2021, 9, 25)"
  by (simp add: long_date_def month_names_def ustr_def is_digit_def decimal_def)

lemma long_date_0315: "long_date (ustr ''2021-03-15'') = None"
  by (simp add: long_date_def month_names_def ustr_def)

lemma iso_date_off1: "iso_date (ustr ''2021-03-15T10:00:00+01:00'') = None"
  by (simp add: iso_date_def ustr_def)

lemma iso_date_off2: "iso_date (ustr ''2021-03-16T10:00:00+02:00'') = None"
  by (simp add: iso_date_def ustr_def)

lemma long_date_off1: "long_date (ustr ''2021-03-15T10:00:00+01:00'') = None"
  by (simp add: long_date_def month_names_def ustr_def)

lemma iso_offset_off1: "iso_offset (ustr ''2021-03-15T10:00:00+01:00'')
    = Some (Timestamp 2021 3 15 36000000000000 (Some 60))"
  by (simp add: iso_offset_def iso_date_def ustr_def is_digit_def decimal_def)

lemma iso_offset_off2: "iso_offset (ustr ''2021-03-16T10:00:00+02:00'')
    = Some (Timestamp 2021 3 16 36000000000000 (Some 120))"
  by (simp add: iso_offset_def iso_date_def ustr_def is_digit_def decimal_def)

lemma title_tv_show: "title lib (strip (ustr ''  tv show  '')) = ustr ''Tv Show''"
  by (simp add: title_def strip_def ustr_def is_space_def is_cased_def to_title_def
      to_lower_def lower_at_def)

lemma title_movie: "title lib (strip (ustr ''movie'')) = ustr ''Movie''"
  by (simp add: title_def strip_def ustr_def is_space_def is_cased_def to_title_def
      to_lower_def lower_at_def)

lemma title_Movie: "title lib (strip (ustr ''Movie'')) = ustr ''Movie''"
  by (simp add: title_def strip_def ustr_def is_space_def is_cased_def to_title_def
      to_lower_def lower_at_def)

lemma title_nan: "title lib (strip (ustr ''nan'')) = ustr ''Nan''"
  by (simp add: title_def strip_def ustr_def is_space_def is_cased_def to_title_def
      to_lower_def lower_at_def)

lemma title_comedy: "title lib (strip (ustr ''  comedy  '')) = ustr ''Comedy''"
  by (simp add: title_def strip_def ustr_def is_space_def is_cased_def to_title_def
      to_lower_def lower_at_def)

lemma title_DRAMA: "title lib (strip (ustr ''DRAMA'')) = ustr ''Drama''"
  by (simp add: title_def strip_def ustr_def is_space_def is_cased_def to_title_def
      to_lower_def lower_at_def)

lemma title_oneil: "title lib (strip (ustr ''o'' @ [39] @ ustr ''neil 3d'')) = ustr ''O'' @ [39] @ ustr ''Neil 3D''"
  by (simp add: title_def strip_def ustr_def is_space_def is_cased_def to_title_def
      to_lower_def lower_at_def)

lemma title_gomez: "title demo_lib (strip gomez) = Gomez"
  by (simp add: gomez_def Gomez_def title_def strip_def ustr_def is_space_def is_cased_def to_title_def
      to_lower_def lower_at_def demo_lib_def)

lemma title_demir:
  "title demo_lib (strip (ustr ''DEM'' @ [304] @ ustr ''R'')) = ustr ''Demi'' @ [775] @ ustr ''r''"
  "title demo_lib (strip (ustr ''Demi'' @ [775] @ ustr ''r'')) = ustr ''Demi'' @ [775] @ ustr ''R''"
  by (simp_all add: title_def strip_def ustr_def is_space_def is_cased_def to_title_def
      to_lower_def lower_at_def demo_lib_def)

lemma blank_examples:
  "blank (ustr ''  '')" "blank [160]" "blank [160, 160]" "blank []"
  "\<not> blank (ustr ''nan'')" "\<not> blank (ustr ''Nan'')" "\<not> blank (ustr ''  comedy  '')"
  "\<not> blank (ustr ''Comedy'')" "\<not> blank (ustr ''  tv show  '')" "\<not> blank (ustr ''Tv Show'')"
  "\<not> blank (ustr ''movie'')" "\<not> blank (ustr ''Movie'')" "\<not> blank (ustr ''DRAMA'')"
  "\<not> blank (ustr ''Drama'')" "\<not> blank (ustr ''Dark'')" "\<not> blank (ustr ''Roma'')"
  "\<not> blank (ustr ''Coco'')" "\<not> blank (ustr ''A film'')" "\<not> blank (ustr ''x'')"
  "\<not> blank gomez" "\<not> blank Gomez"
  by (simp_all add: blank_def is_space_def ustr_def gomez_def Gomez_def)

lemma demo_lib_simps:
  "parse_num demo_lib = demo_parse_num" "guess_format demo_lib = demo_guess_format"
  "parse_format demo_lib = demo_parse_format" "parse_any demo_lib = demo_parse_any"
  by (simp_all add: demo_lib_def)

lemma demo_guess_format_examples:
  "demo_guess_format (ustr ''2021-03-15'') = Some ''%Y-%m-%d''"
  "demo_guess_format (ustr ''September 25, 2021'') = Some ''%B %d, %Y''"
  "demo_guess_format (ustr ''2021-03-15T10:00:00+01:00'') = Some ''%Y-%m-%dT%H:%M:%S%z''"
  by (simp_all add: demo_guess_format_def iso_date_0315 iso_date_sept long_date_sept
      iso_date_off1 long_date_off1 iso_offset_off1)

lemma demo_parse_format_examples:
  "demo_parse_format ''%Y-%m-%d'' (ustr ''2021-03-15'') = Some (Timestamp 2021 3 15 0 None)"
  "demo_parse_format ''%Y-%m-%d'' (ustr ''2020-01-05'') = Some (Timestamp 2020 1 5 0 None)"
  "demo_parse_format ''%Y-%m-%d'' (ustr ''soon'') = None"
  "demo_parse_format ''%B %d, %Y'' (ustr ''September 25, 2021'') = Some (Timestamp 2021 9 25 0 None)"
  "demo_parse_format ''%B %d, %Y'' (ustr ''2021-03-15'') = None"
  "demo_parse_format ''%Y-%m-%dT%H:%M:%S%z'' (ustr ''2021-03-15T10:00:00+01:00'')
     = Some (Timestamp 2021 3 15 36000000000000 (Some 60))"
  "demo_parse_format ''%Y-%m-%dT%H:%M:%S%z'' (ustr ''2021-03-16T10:00:00+02:00'')
     = Some (Timestamp 2021 3 16 36000000000000 (Some 120))"
  by (simp_all add: demo_parse_format_def naive_def iso_date_0315 iso_date_0105 iso_date_soon
      long_date_sept long_date_0315 iso_offset_off1 iso_offset_off2)


lemmas eval_defs = kept_rows_def date_column_def row_cell_def date_mode_def dates_ok_def
  infer_mode_def to_datetime_def same_offsets_def out_columns_def keep_row_def clean_row_def
  add_year_def clean_cell_def clean_text_def cat_cols_def demo_lib_simps ustr_eq_iff
  demo_guess_format_examples demo_parse_format_examples
  demo_parse_num_2017 demo_parse_num_2018 demo_parse_num_abc
  title_tv_show title_movie title_Movie title_nan title_comedy title_DRAMA title_gomez
  blank_examples

lemma wf_raw_table: "wf raw_table"
  by (simp add: wf_def raw_table_def)

lemma required_raw_table: "set required \<subseteq> set (columns raw_table)"
  by (simp add: required_def raw_table_def)

lemma cleaning_raw_table: "cleaning demo_lib raw_table = Inr cleaned_table"
  unfolding cleaning_normal_form [OF wf_raw_table required_raw_table]
  by (simp add: raw_table_def cleaned_table_def eval_defs)

lemma labels_cleaned_table: "labels cleaned_table = [0, 3, 5]"
  by (simp add: labels_def cleaned_table_def)

lemma wf_abc_table: "wf abc_table"
  by (simp add: wf_def abc_table_def)

lemma required_abc_table: "set required \<subseteq> set (columns abc_table)"
  by (simp add: required_def abc_table_def)

lemma cleaning_abc_table: "cleaning demo_lib abc_table = Inr abc_cleaned"
  unfolding cleaning_normal_form [OF wf_abc_table required_abc_table]
  by (simp add: abc_table_def abc_cleaned_def eval_defs)

lemma wf_abc_cleaned: "wf abc_cleaned"
  by (simp add: wf_def abc_cleaned_def)

lemma required_abc_cleaned: "set required \<subseteq> set (columns abc_cleaned)"
  by (simp add: required_def abc_cleaned_def)

lemma cleaning_abc_cleaned:
  "cleaning demo_lib abc_cleaned =
     Inr \<lparr>columns = [''title'', ''type'', ''release_year'', ''date_added'', ''year_added''],
          rows = []\<rparr>"
  unfolding cleaning_normal_form [OF wf_abc_cleaned required_abc_cleaned]
  by (simp add: abc_cleaned_def eval_defs)

lemma wf_good_table: "wf good_table"
  by (simp add: wf_def good_table_def)

lemma required_good_table: "set required \<subseteq> set (columns good_table)"
  by (simp add: required_def good_table_def)

lemma cleaning_good_table: "cleaning demo_lib good_table = Inr good_cleaned"
  unfolding cleaning_normal_form [OF wf_good_table required_good_table]
  by (simp add: good_table_def good_cleaned_def eval_defs)

lemma wf_notes_table: "wf notes_table"
  by (simp add: wf_def notes_table_def)

lemma required_notes_table: "set required \<subseteq> set (columns notes_table)"
  by (simp add: required_def notes_table_def)

lemma cleaning_notes_table:
  "cleaning demo_lib notes_table =
     Inr \<lparr>columns = [''title'', ''type'', ''release_year'', ''date_added'', ''year_added'', ''notes''],
          rows = [(0, [Text ''Roma'', Text ''Movie'', Num 2017, Dt (Timestamp 2021 3 15 0 None),
                       Num 2021, NaN])]\<rparr>"
  unfolding cleaning_normal_form [OF wf_notes_table required_notes_table]
  by (simp add: notes_table_def eval_defs)




lemma wf_offsets_table: "wf offsets_table"
  by (simp add: wf_def offsets_table_def)

lemma required_offsets_table: "set required \<subseteq> set (columns offsets_table)"
  by (simp add: required_def offsets_table_def)

lemma cleaning_offsets_table: "cleaning demo_lib offsets_table = Inl AttributeError"
  unfolding cleaning_normal_form [OF wf_offsets_table required_offsets_table]
  by (simp add: offsets_table_def eval_defs)

section \<open>Facts for the claims\<close>

lemma blank_dropWhile: "blank (dropWhile is_space s) = blank s"
  by (induction s) (auto simp: blank_def)

lemma blank_rev: "blank (rev s) = blank s"
  by (simp add: blank_def list_all_iff)

lemma blank_strip: "blank (strip s) = blank s"
  by (simp add: strip_def blank_rev blank_dropWhile)

lemma last_dropWhile_keep: "dropWhile P xs \<noteq> [] \<Longrightarrow> last (dropWhile P xs) = last xs"
  by (induction xs) (auto split: if_splits)

lemma strip_ends:
  assumes "strip s \<noteq> []"
  shows "\<not> is_space (hd (strip s)) \<and> \<not> is_space (last (strip s))"
proof -
  let ?y = "dropWhile is_space s"
  let ?z = "dropWhile is_space (rev ?y)"
  have z: "?z \<noteq> []" using assms by (simp add: strip_def)
  have "?y = [] \<Longrightarrow> ?z = []" by (simp only: rev.simps dropWhile.simps)
  with z have y: "?y \<noteq> []" by blast
  have "\<not> is_space (hd ?z)" using z by (rule hd_dropWhile)
  then have l: "\<not> is_space (last (strip s))" using z by (simp add: strip_def last_rev)
  have "last ?z = last (rev ?y)" using z by (rule last_dropWhile_keep)
  also have "\<dots> = hd ?y" using y by (simp add: last_rev)
  finally have "hd (strip s) = hd ?y" using z by (simp add: strip_def hd_rev)
  moreover have "\<not> is_space (hd ?y)" using y by (rule hd_dropWhile)
  ultimately show ?thesis using l by simp
qed

lemma strip_fixed:
  assumes "x = [] \<or> (\<not> is_space (hd x) \<and> \<not> is_space (last x))"
  shows "strip x = x"
proof (cases x)
  case Nil
  then show ?thesis by (simp add: strip_def)
next
  case (Cons a as)
  then have h: "\<not> is_space a" "\<not> is_space (last x)" using assms by auto
  then have 1: "dropWhile is_space x = x" using Cons by simp
  have "rev x \<noteq> []" "hd (rev x) = last x" using Cons by (simp_all add: hd_rev)
  then obtain b bs where b: "rev x = b # bs" "b = last x" by (cases "rev x") auto
  have nb: "\<not> is_space b" using b(2) h(2) by simp
  have "dropWhile is_space (b # bs) = b # bs" using nb by simp
  then have 2: "dropWhile is_space (rev x) = rev x" by (simp only: b(1))
  show ?thesis by (simp add: strip_def 1 2)
qed

lemma clean_text_Str:
  "clean_text lib (Str s) = (if blank s then NaN else Str (title lib (strip s)))"
  by (simp add: clean_text_def)

lemma final_cell_cat_Str:
  assumes "c \<in> set cat_cols"
  shows "final_cell lib m c (Str s)
         = (if blank s then NaN else replace_blank (Str (title lib (strip s))))"
  using assms by (simp add: final_cell_def clean_cell_cat clean_text_Str)

lemma keep_row_cells:
  assumes "keep_row cols r" "col_index c cols = Some k"
    "c \<in> {''title'', ''type'', ''release_year''}"
  shows "\<not> isna (r ! k)"
  using assms by (auto simp: keep_row_def)

lemma final_cell_title: "final_cell lib m ''title'' v = replace_blank v"
  by (simp add: final_cell_def clean_cell_def cat_cols_def)

lemma final_cell_type: "final_cell lib m ''type'' v = replace_blank (clean_text lib v)"
  by (simp add: final_cell_def clean_cell_def cat_cols_def)

lemma final_cell_release_year: "final_cell lib m ''release_year'' v = to_numeric lib v"
  by (simp add: final_cell_def clean_cell_release_year to_numeric_not_text)


lemma required_cols:
  assumes "set required \<subseteq> set cols"
  shows "\<exists>k1 k2 k3 k4. col_index ''title'' cols = Some k1 \<and> col_index ''type'' cols = Some k2
     \<and> col_index ''release_year'' cols = Some k3 \<and> col_index ''date_added'' cols = Some k4"
proof -
  have "''title'' \<in> set cols" "''type'' \<in> set cols" "''release_year'' \<in> set cols"
    "''date_added'' \<in> set cols" using assms by (auto simp: required_def)
  then show ?thesis using col_index_mem by metis
qed

lemma drop_dups_keeps:
  "(i, r) \<in> set rs \<Longrightarrow> r \<notin> set seen \<Longrightarrow> \<exists>j. (j, r) \<in> set (drop_dups seen rs)"
proof (induction seen rs rule: drop_dups.induct)
  case (1 seen)
  then show ?case by simp
next
  case (2 seen i' r' rs)
  show ?case
  proof (cases "r' \<in> set seen")
    case True
    then have "(i, r) \<in> set rs" using "2.prems" by auto
    then show ?thesis using True "2.IH"(1) "2.prems"(2) by simp
  next
    case False
    show ?thesis
    proof (cases "r = r'")
      case True
      then show ?thesis using False by auto
    next
      case ne: False
      then have "(i, r) \<in> set rs" "r \<notin> set (r' # seen)" using "2.prems" by auto
      then obtain j where "(j, r) \<in> set (drop_dups (r' # seen) rs)"
        using "2.IH"(2) [OF False] by blast
      then show ?thesis using False by auto
    qed
  qed
qed

lemma kept_in_output:
  assumes w: "wf df" and req: "set required \<subseteq> set (columns df)"
    and out: "cleaning lib df = Inr out"
    and r: "(j, r) \<in> set (drop_dups [] (rows df))" "keep_row (columns df) r"
  shows "(j, clean_row lib (date_mode lib df) (columns df) r) \<in> set (rows out) \<and> j \<in> set (labels out)"
proof -
  let ?kept = "filter (\<lambda>(i, r). keep_row (columns df) r) (drop_dups [] (rows df))"
  have o: "rows out = map (\<lambda>(i, r). (i, clean_row lib (date_mode lib df) (columns df) r)) ?kept"
    using cleaning_normal_form [OF w req, of lib] out by (auto simp: kept_rows_def split: if_splits)
  have "(j, r) \<in> set ?kept" using r by simp
  then have "(\<lambda>(i, r). (i, clean_row lib (date_mode lib df) (columns df) r)) (j, r) \<in> set (rows out)"
    unfolding o set_map by (rule imageI)
  then have a: "(j, clean_row lib (date_mode lib df) (columns df) r) \<in> set (rows out)" by simp
  then have "fst (j, clean_row lib (date_mode lib df) (columns df) r) \<in> set (labels out)"
    unfolding labels_def set_map by (rule imageI)
  with a show ?thesis by simp
qed

lemma keep_rowI:
  assumes "col_index ''title'' cols = Some k1" "col_index ''type'' cols = Some k2"
    "col_index ''release_year'' cols = Some k3"
    "\<not> isna (r ! k1)" "\<not> isna (r ! k2)" "\<not> isna (r ! k3)"
  shows "keep_row cols r"
  using assms by (simp add: keep_row_def)

lemma isna_iff: "isna v \<longleftrightarrow> v = NaN"
  by (cases v) auto

lemma cleaning_missing_column:
  assumes w: "wf df" and miss: "\<not> set required \<subseteq> set (columns df)"
  shows "\<exists>c \<in> set required. c \<notin> set (columns df) \<and> cleaning lib df = Inl (KeyError c)"
proof -
  let ?cols = "columns df"
  let ?df1 = "drop_duplicates df"
  have c1: "columns ?df1 = ?cols" by (simp add: drop_duplicates_def)
  consider (a) "''title'' \<notin> set ?cols"
    | (b) "''title'' \<in> set ?cols" "''type'' \<notin> set ?cols"
    | (c) "''title'' \<in> set ?cols" "''type'' \<in> set ?cols" "''release_year'' \<notin> set ?cols"
    | (d) "''title'' \<in> set ?cols" "''type'' \<in> set ?cols" "''release_year'' \<in> set ?cols"
          "''date_added'' \<notin> set ?cols"
    using miss by (auto simp: required_def)
  then show ?thesis
  proof cases
    case a
    then have "col_index ''title'' ?cols = None" by (simp add: col_index_None)
    then have "cleaning lib df = Inl (KeyError ''title'')"
      by (simp add: cleaning_def dropna_def c1)
    then show ?thesis using a by (auto simp: required_def)
  next
    case b
    obtain k1 where "col_index ''title'' ?cols = Some k1" using b(1) col_index_mem by blast
    moreover have "col_index ''type'' ?cols = None" using b(2) by (simp add: col_index_None)
    ultimately have "cleaning lib df = Inl (KeyError ''type'')"
      by (simp add: cleaning_def dropna_def c1)
    then show ?thesis using b by (auto simp: required_def)
  next
    case c
    obtain k1 where "col_index ''title'' ?cols = Some k1" using c(1) col_index_mem by blast
    moreover obtain k2 where "col_index ''type'' ?cols = Some k2" using c(2) col_index_mem by blast
    moreover have "col_index ''release_year'' ?cols = None" using c(3) by (simp add: col_index_None)
    ultimately have "cleaning lib df = Inl (KeyError ''release_year'')"
      by (simp add: cleaning_def dropna_def c1)
    then show ?thesis using c by (auto simp: required_def)
  next
    case d
    let ?df2 = "?df1\<lparr>rows := filter (\<lambda>(i, r). keep_row ?cols r) (rows ?df1)\<rparr>"
    let ?T = "\<lambda>c v. if c \<in> set cat_cols then clean_text lib v else v"
    let ?N = "\<lambda>c v. if c = ''release_year'' then to_numeric lib v else v"
    have w1: "wf ?df1" using w by (rule wf_drop_duplicates)
    have w2: "wf ?df2" using w1 by (rule wf_filter)
    have c2: "columns ?df2 = ?cols" by (simp add: drop_duplicates_def)
    have s2: "dropna [''title'', ''type'', ''release_year''] ?df1 = Inr ?df2"
      using dropna_keep [of ?df1] d c1 by simp
    have s3: "clean_cols lib ?df2 cat_cols = Inr (cmap ?T ?df2)"
      using clean_cols_cmap [OF w2 distinct_cat_cols] .
    have w3: "wf (cmap ?T ?df2)" using w2 by (rule wf_cmap)
    obtain ry where ry: "getitem (cmap ?T ?df2) ''release_year'' = Inr ry"
      "setitem (cmap ?T ?df2) ''release_year'' (map (to_numeric lib) ry) = cmap ?N (cmap ?T ?df2)"
      using assign_cmap [OF w3, of "''release_year''" "to_numeric lib"] d(3) c2
      by (auto simp: columns_cmap)
    have "col_index ''date_added'' (columns (cmap ?N (cmap ?T ?df2))) = None"
      using d(4) c2 by (simp add: columns_cmap col_index_None)
    then have g: "getitem (cmap ?N (cmap ?T ?df2)) ''date_added'' = Inl (KeyError ''date_added'')"
      by (simp add: getitem_def)
    have "cleaning lib df = Inl (KeyError ''date_added'')"
      unfolding cleaning_def Let_def s2 s3 sum.case ry g ..
    then show ?thesis using d by (auto simp: required_def)
  qed
qed

lemma keep_row_row_cell:
  "keep_row cols r \<longleftrightarrow> (\<forall>c \<in> {''title'', ''type'', ''release_year''}. row_cell cols r c \<noteq> Some NaN)"
  by (auto simp: keep_row_def row_cell_def isna_iff split: option.splits)

lemma length_out_rows:
  assumes "wf df" "set required \<subseteq> set (columns df)" "cleaning lib df = Inr out"
  shows "map snd (rows out) = map (clean_row lib (date_mode lib df) (columns df))
           (map snd (kept_rows df))"
  using cleaning_normal_form [OF assms(1,2), of lib] assms(3)
  by (auto simp: split_beta comp_def split: if_splits)

lemma map_snd_3:
  assumes "map snd xs = [x, y, z]"
  shows "\<exists>a b c. xs = [(a, x), (b, y), (c, z)]"
proof -
  from assms obtain p ps where 1: "xs = p # ps" "snd p = x" "map snd ps = [y, z]"
    by (cases xs) auto
  then obtain p2 ps2 where 2: "ps = p2 # ps2" "snd p2 = y" "map snd ps2 = [z]"
    by (cases ps) auto
  then obtain p3 where 3: "ps2 = [p3]" "snd p3 = z" by (cases ps2) auto
  have "p = (fst p, x)" "p2 = (fst p2, y)" "p3 = (fst p3, z)" using 1 2 3 by auto
  then show ?thesis using 1 2 3 by metis
qed

lemma final_cell_other:
  "c \<notin> set cat_cols \<Longrightarrow> c \<noteq> ''release_year'' \<Longrightarrow> c \<noteq> ''date_added'' \<Longrightarrow>
   final_cell lib m c v = replace_blank v"
  by (simp add: final_cell_def clean_cell_other)


lemma length_offsets: "length (offsets col) \<le> length col"
  by (induction col rule: offsets.induct) auto

lemma same_offsets_single: "length col \<le> 1 \<Longrightarrow> same_offsets col"
proof -
  assume "length col \<le> 1"
  then have "length (offsets col) \<le> 1" using length_offsets [of col] by simp
  then show ?thesis by (cases "offsets col") (auto simp: same_offsets_def)
qed


lemma blank_append: "blank (a @ b) \<longleftrightarrow> blank a \<and> blank b"
  by (simp add: blank_def)

lemma to_title_not_blank:
  assumes "\<forall>c. \<not> is_space c \<longrightarrow> \<not> blank (uni_title lib c)" and "\<not> is_space c"
  shows "\<not> blank (to_title lib c)"
proof (cases "c < 128")
  case True
  then show ?thesis using assms(2) by (auto simp: to_title_def blank_def is_space_def)
next
  case False
  then show ?thesis using assms by (simp add: to_title_def)
qed

lemma title_not_blank:
  assumes lib: "\<forall>c. \<not> is_space c \<longrightarrow> \<not> blank (uni_title lib c)" and s: "\<not> blank s"
  shows "\<not> blank (title lib (strip s))"
proof -
  have "\<not> blank (strip s)" using s by (simp add: blank_strip)
  then have ne: "strip s \<noteq> []" by (auto simp: blank_def)
  then obtain c cs where c: "strip s = c # cs" by (cases "strip s") auto
  have "\<not> is_space c" using strip_ends [OF ne] c by simp
  then have "\<not> blank (to_title lib c)" using lib by (rule to_title_not_blank [rotated])
  then show ?thesis by (simp add: title_def c blank_append)
qed



lemma date_mode_formats_table: "date_mode demo_lib formats_table = ByFormat ''%B %d, %Y''"
  by (simp add: formats_table_def eval_defs)

lemma cleaning_failures:
  assumes "wf df" and "cleaning lib df = Inl e"
  shows "(\<exists>c \<in> set required. c \<notin> set (columns df) \<and> e = KeyError c)
       \<or> (set required \<subseteq> set (columns df) \<and> \<not> dates_ok lib df \<and> e = AttributeError)"
proof (cases "set required \<subseteq> set (columns df)")
  case True
  then show ?thesis using cleaning_normal_form [OF assms(1) True, of lib] assms(2)
    by (auto split: if_splits)
next
  case False
  then show ?thesis using cleaning_missing_column [OF assms(1) False, of lib] assms(2) by auto
qed

section \<open>Claims about the cleaning script\<close>

text \<open>
  C2. An input row whose release year is text that does not convert to a number is
  not dropped for it: when its title and type are present, the output has the row
  (under the index label of the first input row with these values), with a missing
  release year. An input row whose release year is missing is dropped.
\<close>

theorem non_numeric_year_kept_missing_year_dropped:
  assumes "wf df" and "set required \<subseteq> set (columns df)"
    and "cleaning lib df = Inr out" and "(i, r) \<in> set (rows df)"
  shows "(\<forall>s. loc df i ''release_year'' = Some (Str s) \<and> parse_num lib s = None
              \<and> loc df i ''title'' \<noteq> Some NaN \<and> loc df i ''type'' \<noteq> Some NaN
           \<longrightarrow> (\<exists>j. (j, r) \<in> set (rows df) \<and> j \<in> set (labels out)
                    \<and> loc out j ''release_year'' = Some NaN))
       \<and> (loc df i ''release_year'' = Some NaN \<longrightarrow> i \<notin> set (labels out))"
proof -
  obtain k1 k2 k3 where k: "col_index ''title'' (columns df) = Some k1"
      "col_index ''type'' (columns df) = Some k2"
      "col_index ''release_year'' (columns df) = Some k3"
    using required_cols [OF assms(2)] by blast
  have a: "loc df i ''title'' = Some (r ! k1)" "loc df i ''type'' = Some (r ! k2)"
      "loc df i ''release_year'' = Some (r ! k3)"
    using loc_row [OF assms(1,4)] k by simp_all
  have len: "length r = length (columns df)"
    using assms(1,4) by (auto simp: wf_def list_all_iff)
  have kept: "\<exists>j. (j, r) \<in> set (rows df) \<and> j \<in> set (labels out)
                 \<and> loc out j ''release_year'' = Some NaN"
    if h: "r ! k3 = Str s" "parse_num lib s = None" "r ! k1 \<noteq> NaN" "r ! k2 \<noteq> NaN" for s
  proof -
    have kr: "keep_row (columns df) r"
      using k h by (intro keep_rowI [of _ k1 k2 k3]) (simp_all add: isna_iff)
    obtain j where j: "(j, r) \<in> set (drop_dups [] (rows df))"
      using drop_dups_keeps [OF assms(4), of "[]"] by auto
    then have j1: "(j, r) \<in> set (rows df)" using set_drop_dups [of "[]" "rows df"] by blast
    have j2: "(j, clean_row lib (date_mode lib df) (columns df) r) \<in> set (rows out)" "j \<in> set (labels out)"
      using kept_in_output [OF assms(1-3) j kr] by simp_all
    have "loc out j ''release_year'' = Some (to_numeric lib (r ! k3))"
      using out_loc [OF assms(1-3) j2(1) len k(3)] by (simp add: final_cell_release_year)
    then show ?thesis using j1 j2(2) h by auto
  qed
  have dropped: "i \<notin> set (labels out)" if h: "r ! k3 = NaN"
  proof
    assume "i \<in> set (labels out)"
    then obtain r' where r': "(i, r') \<in> set (rows df)" "keep_row (columns df) r'"
      using out_label [OF assms(1-3)] by blast
    have "loc df i ''release_year'' = Some (r' ! k3)"
      using loc_row [OF assms(1) r'(1) k(3)] .
    then have "r' ! k3 = NaN" using a(3) h by simp
    then show False using keep_row_cells [OF r'(2) k(3)] by simp
  qed
  show ?thesis using a kept dropped by auto
qed

theorem non_numeric_year_kept_missing_year_dropped_witness:
  "wf raw_table \<and> set required \<subseteq> set (columns raw_table)
   \<and> cleaning demo_lib raw_table = Inr cleaned_table
   \<and> loc raw_table 3 ''release_year'' = Some (Text ''abc'') \<and> parse_num demo_lib (ustr ''abc'') = None
   \<and> loc raw_table 3 ''title'' \<noteq> Some NaN \<and> loc raw_table 3 ''type'' \<noteq> Some NaN
   \<and> 3 \<in> set (labels cleaned_table) \<and> loc cleaned_table 3 ''release_year'' = Some NaN
   \<and> loc raw_table 4 ''release_year'' = Some NaN \<and> 4 \<notin> set (labels cleaned_table)"
proof -
  have r4: "(4, [Text ''Up'', Text ''Movie'', NaN, Text ''2020-01-05'', Text ''pete docter'',
                  Text ''kids'', Text ''d'']) \<in> set (rows raw_table)"
    by (simp add: raw_table_def)
  have a: "loc raw_table 3 ''release_year'' = Some (Text ''abc'')"
    "loc raw_table 3 ''title'' \<noteq> Some NaN" "loc raw_table 3 ''type'' \<noteq> Some NaN"
    "loc raw_table 4 ''release_year'' = Some NaN"
    by (simp_all add: loc_def raw_table_def)
  have p: "parse_num demo_lib (ustr ''abc'') = None" by (simp add: demo_lib_simps demo_parse_num_abc)
  have r3: "(3, [Text ''Roma'', Text ''movie'', Text ''abc'', Text ''soon'', Text ''  '',
                  Text ''DRAMA'', Text ''A film'']) \<in> set (rows raw_table)"
    by (simp add: raw_table_def)
  obtain j where j: "(j, [Text ''Roma'', Text ''movie'', Text ''abc'', Text ''soon'', Text ''  '',
                  Text ''DRAMA'', Text ''A film'']) \<in> set (rows raw_table)"
      "j \<in> set (labels cleaned_table)" "loc cleaned_table j ''release_year'' = Some NaN"
    using non_numeric_year_kept_missing_year_dropped
      [OF wf_raw_table required_raw_table cleaning_raw_table r3] a(1-3) p by blast
  have "j = 3" using j(1) by (simp add: raw_table_def ustr_eq_iff)
  then have b: "3 \<in> set (labels cleaned_table)" "loc cleaned_table 3 ''release_year'' = Some NaN"
    using j(2,3) by simp_all
  have "4 \<notin> set (labels cleaned_table)"
    using non_numeric_year_kept_missing_year_dropped
      [OF wf_raw_table required_raw_table cleaning_raw_table r4] a(4) by blast
  then show ?thesis
    using wf_raw_table required_raw_table cleaning_raw_table a p b by blast
qed

text \<open>
  C4. In a row that survives the row-dropping steps, a missing cell of a column listed
  in \<open>cat_cols\<close> comes out as the text \<^verbatim>\<open>Nan\<close>: the conversion to text turns missing
  into \<^verbatim>\<open>nan\<close>, which is not blank, and the title-casing capitalises it.
\<close>

theorem missing_categorical_becomes_Nan:
  assumes "wf df" and "set required \<subseteq> set (columns df)"
    and "cleaning lib df = Inr out" and "i \<in> set (labels out)"
    and "c \<in> set cat_cols" and "loc df i c = Some NaN"
  shows "astype_str lib NaN = Text ''nan'' \<and> loc out i c = Some (Text ''Nan'')"
proof -
  obtain r where r: "(i, r) \<in> set (rows df)" "length r = length (columns df)"
      "(i, clean_row lib (date_mode lib df) (columns df) r) \<in> set (rows out)"
    using out_label [OF assms(1-4)] by blast
  obtain k where k: "col_index c (columns df) = Some k"
    using assms(6) by (auto simp: loc_def split: option.splits)
  have v: "r ! k = NaN" using loc_row [OF assms(1) r(1) k] assms(6) by simp
  have c: "c \<noteq> ''year_added''" using assms(5) by (auto simp: cat_cols_def)
  have "final_cell lib (date_mode lib df) c NaN = Text ''Nan''"
    using assms(5) by (simp add: final_cell_def clean_cell_cat clean_text_def title_nan blank_examples)
  then show ?thesis using out_loc [OF assms(1-3) r(3,2) k c] v by simp
qed

theorem missing_categorical_becomes_Nan_witness:
  "wf raw_table \<and> set required \<subseteq> set (columns raw_table)
   \<and> cleaning demo_lib raw_table = Inr cleaned_table \<and> 0 \<in> set (labels cleaned_table)
   \<and> ''director'' \<in> set cat_cols \<and> loc raw_table 0 ''director'' = Some NaN
   \<and> loc cleaned_table 0 ''director'' = Some (Text ''Nan'')"
proof -
  have l: "0 \<in> set (labels cleaned_table)" by (simp add: labels_cleaned_table)
  have c: "''director'' \<in> set cat_cols" by (simp add: cat_cols_def)
  have d: "loc raw_table 0 ''director'' = Some NaN" by (simp add: loc_def raw_table_def)
  show ?thesis
    using missing_categorical_becomes_Nan
      [OF wf_raw_table required_raw_table cleaning_raw_table l c d]
      wf_raw_table required_raw_table cleaning_raw_table l c d by blast
qed

text \<open>
  C7. A frame of three rows, two of them identical with title, type and release year
  present and the third without a title, in any order, is cleaned to exactly one row:
  the cleaned duplicate.
\<close>

theorem duplicates_collapse_and_titleless_dropped:
  assumes "wf df" and "set required \<subseteq> set (columns df)"
    and "map snd (rows df) = [r, r, q] \<or> map snd (rows df) = [r, q, r]
         \<or> map snd (rows df) = [q, r, r]"
    and "\<forall>c \<in> {''title'', ''type'', ''release_year''}. row_cell (columns df) r c \<noteq> Some NaN"
    and "row_cell (columns df) q ''title'' = Some NaN"
  shows "\<exists>out. cleaning lib df = Inr out \<and> length (rows out) = 1
           \<and> map snd (rows out) = [clean_row lib (date_mode lib df) (columns df) r]"
proof -
  have kr: "keep_row (columns df) r" using assms(4) by (simp add: keep_row_row_cell)
  have kq: "\<not> keep_row (columns df) q" using assms(5) by (simp add: keep_row_row_cell)
  have ne: "r \<noteq> q" "q \<noteq> r" using kr kq by auto
  let ?kept = "\<lambda>rs. map snd (filter (\<lambda>(i, r). keep_row (columns df) r) (drop_dups [] rs))"
  have k1: "?kept [(a, r), (b, r), (c, q)] = [r]" for a b c using kr kq ne by simp
  have k2: "?kept [(a, r), (b, q), (c, r)] = [r]" for a b c using kr kq ne by simp
  have k3: "?kept [(a, q), (b, r), (c, r)] = [r]" for a b c using kr kq ne by simp
  have "?kept (rows df) = [r]"
  proof -
    from assms(3) consider (rrq) "map snd (rows df) = [r, r, q]"
      | (rqr) "map snd (rows df) = [r, q, r]" | (qrr) "map snd (rows df) = [q, r, r]" by blast
    then show ?thesis
    proof cases
      case rrq
      from map_snd_3 [OF rrq] obtain a b c where "rows df = [(a, r), (b, r), (c, q)]" by blast
      then show ?thesis by (simp only: k1)
    next
      case rqr
      from map_snd_3 [OF rqr] obtain a b c where "rows df = [(a, r), (b, q), (c, r)]" by blast
      then show ?thesis by (simp only: k2)
    next
      case qrr
      from map_snd_3 [OF qrr] obtain a b c where "rows df = [(a, q), (b, r), (c, r)]" by blast
      then show ?thesis by (simp only: k3)
    qed
  qed
  then have e: "map snd (kept_rows df) = [r]" by (simp only: kept_rows_def)
  have "length (map snd (kept_rows df)) = 1" by (simp add: e)
  then have "length (date_column df) = 1" by (simp add: date_column_def)
  then have "dates_ok lib df" unfolding dates_ok_def
    by (intro same_offsets_single) (simp add: to_datetime_def)
  then obtain out where out: "cleaning lib df = Inr out"
    using cleaning_normal_form [OF assms(1,2), of lib] by simp
  have "map snd (rows out) = map (clean_row lib (date_mode lib df) (columns df)) [r]"
    using length_out_rows [OF assms(1,2) out] unfolding e .
  then have m: "map snd (rows out) = [clean_row lib (date_mode lib df) (columns df) r]"
    by (simp only: list.map)
  have "length (map snd (rows out)) = 1" by (simp add: m)
  then have l: "length (rows out) = 1" by (simp only: length_map)
  show ?thesis by (rule exI [of _ out]) (simp only: out l m simp_thms)
qed

theorem duplicates_collapse_and_titleless_dropped_witness:
  "wf dup_table \<and> set required \<subseteq> set (columns dup_table)
   \<and> map snd (rows dup_table)
       = [[Text ''Roma'', Text ''Movie'', Text ''2017'', Text ''2021-03-15''],
          [NaN, Text ''Movie'', Text ''2017'', Text ''2021-03-15''],
          [Text ''Roma'', Text ''Movie'', Text ''2017'', Text ''2021-03-15'']]
   \<and> (\<exists>out. cleaning demo_lib dup_table = Inr out \<and> length (rows out) = 1)"
proof -
  let ?r = "[Text ''Roma'', Text ''Movie'', Text ''2017'', Text ''2021-03-15'']"
  let ?q = "[NaN, Text ''Movie'', Text ''2017'', Text ''2021-03-15'']"
  have w: "wf dup_table" by (simp add: wf_def dup_table_def)
  have req: "set required \<subseteq> set (columns dup_table)" by (simp add: required_def dup_table_def)
  have m: "map snd (rows dup_table) = [?r, ?q, ?r]" by (simp add: dup_table_def)
  then have m': "map snd (rows dup_table) = [?r, ?r, ?q] \<or> map snd (rows dup_table) = [?r, ?q, ?r]
         \<or> map snd (rows dup_table) = [?q, ?r, ?r]" by simp
  have pr: "\<forall>c \<in> {''title'', ''type'', ''release_year''}. row_cell (columns dup_table) ?r c \<noteq> Some NaN"
    by (simp add: row_cell_def dup_table_def)
  have pq: "row_cell (columns dup_table) ?q ''title'' = Some NaN"
    by (simp add: row_cell_def dup_table_def)
  obtain out where "cleaning demo_lib dup_table = Inr out" "length (rows out) = 1"
    using duplicates_collapse_and_titleless_dropped [OF w req m' pr pq, of demo_lib]
    by (elim exE conjE)
  then have "\<exists>out. cleaning demo_lib dup_table = Inr out \<and> length (rows out) = 1"
    by (intro exI conjI)
  then show ?thesis by (simp only: w req m simp_thms)
qed

text \<open>
  C1, as the script has it. Every row of the output comes from an input row whose
  title, type and release year are all present, because rows are dropped on the raw
  values. The cleaning that follows can still empty these cells: the output title is
  the input title, or missing when that is blank text; the output type is the input
  type converted to text, stripped and title-cased, or missing when the input or the
  result is blank text; the output release year is the number that
  the input converts to, or missing when it does not convert.
\<close>

theorem essential_cells_of_output_row:
  assumes "wf df" and "set required \<subseteq> set (columns df)"
    and "cleaning lib df = Inr out" and "i \<in> set (labels out)"
  shows "\<exists>t ty ry. loc df i ''title'' = Some t \<and> \<not> isna t
           \<and> loc df i ''type'' = Some ty \<and> \<not> isna ty
           \<and> loc df i ''release_year'' = Some ry \<and> \<not> isna ry
           \<and> loc out i ''title'' = Some (replace_blank t)
           \<and> loc out i ''type'' = Some (replace_blank (clean_text lib ty))
           \<and> loc out i ''release_year'' = Some (to_numeric lib ry)"
proof -
  obtain r where r: "(i, r) \<in> set (rows df)" "length r = length (columns df)"
      "(i, clean_row lib (date_mode lib df) (columns df) r) \<in> set (rows out)" "keep_row (columns df) r"
    using out_label [OF assms] by blast
  obtain k1 k2 k3 where k: "col_index ''title'' (columns df) = Some k1"
      "col_index ''type'' (columns df) = Some k2"
      "col_index ''release_year'' (columns df) = Some k3"
    using required_cols [OF assms(2)] by blast
  have a: "loc df i ''title'' = Some (r ! k1)" "loc df i ''type'' = Some (r ! k2)"
      "loc df i ''release_year'' = Some (r ! k3)"
    using loc_row [OF assms(1) r(1)] k by simp_all
  have b: "\<not> isna (r ! k1)" "\<not> isna (r ! k2)" "\<not> isna (r ! k3)"
    using keep_row_cells [OF r(4)] k by simp_all
  have c: "loc out i ''title'' = Some (replace_blank (r ! k1))"
    using out_loc [OF assms(1-3) r(3,2) k(1)] by (simp add: final_cell_title)
  have d: "loc out i ''type'' = Some (replace_blank (clean_text lib (r ! k2)))"
    using out_loc [OF assms(1-3) r(3,2) k(2)] by (simp add: final_cell_type)
  have e: "loc out i ''release_year'' = Some (to_numeric lib (r ! k3))"
    using out_loc [OF assms(1-3) r(3,2) k(3)] by (simp add: final_cell_release_year)
  show ?thesis using a b c d e by blast
qed

theorem essential_cells_of_output_row_witness:
  "wf abc_table \<and> set required \<subseteq> set (columns abc_table)
   \<and> cleaning demo_lib abc_table = Inr abc_cleaned \<and> 0 \<in> set (labels abc_cleaned)
   \<and> loc abc_table 0 ''release_year'' = Some (Text ''abc'')
   \<and> loc abc_cleaned 0 ''release_year'' = Some (to_numeric demo_lib (Text ''abc''))
   \<and> to_numeric demo_lib (Text ''abc'') = NaN
   \<and> replace_blank (Str [160]) = NaN"
proof -
  have l: "0 \<in> set (labels abc_cleaned)" by (simp add: labels_def abc_cleaned_def)
  have d: "loc abc_table 0 ''release_year'' = Some (Text ''abc'')"
    by (simp add: loc_def abc_table_def)
  have n: "to_numeric demo_lib (Text ''abc'') = NaN"
    by (simp add: demo_lib_simps demo_parse_num_abc)
  have "loc abc_cleaned 0 ''release_year'' = Some (to_numeric demo_lib (Text ''abc''))"
    using essential_cells_of_output_row
      [OF wf_abc_table required_abc_table cleaning_abc_table l] d by auto
  moreover have "replace_blank (Str [160]) = NaN" by (simp add: blank_examples)
  ultimately show ?thesis
    using wf_abc_table required_abc_table cleaning_abc_table l d n by blast
qed

text \<open>
  C1 as stated fails: the one row of \<open>abc_table\<close> has the release year \<^verbatim>\<open>abc\<close>, it is
  kept, and its release year in the output is missing.
\<close>

theorem output_row_without_release_year_counterexample:
  "cleaning demo_lib abc_table = Inr abc_cleaned
   \<and> labels abc_cleaned = [0]
   \<and> loc abc_cleaned 0 ''release_year'' = Some NaN"
  by (simp add: cleaning_abc_table) (simp add: labels_def loc_def abc_cleaned_def)

text \<open>
  C5. In a row of the output, a text cell of a column listed in \<open>cat_cols\<close> is missing
  when the input text is empty or all whitespace, and is otherwise the input text
  stripped of surrounding whitespace and title-cased. The text \<^verbatim>\<open>"  comedy  "\<close>
  becomes \<^verbatim>\<open>"Comedy"\<close>, and \<^verbatim>\<open>"DRAMA"\<close> becomes \<^verbatim>\<open>"Drama"\<close>. Whitespace is the
  whitespace of Unicode, and the case mappings above U+007F are those of the library,
  of which the proof uses one property: the title-case mapping of a code point that is
  not whitespace is not blank.
\<close>

theorem categorical_text_is_stripped_and_titled:
  assumes "wf df" and "set required \<subseteq> set (columns df)"
    and "cleaning lib df = Inr out" and "i \<in> set (labels out)"
    and "c \<in> set cat_cols" and "loc df i c = Some (Str s)"
    and "\<forall>u. \<not> is_space u \<longrightarrow> \<not> blank (uni_title lib u)"
  shows "loc out i c = Some (if blank s then NaN else Str (title lib (strip s)))
       \<and> (s = ustr ''  comedy  '' \<longrightarrow> loc out i c = Some (Text ''Comedy''))
       \<and> (s = ustr ''DRAMA'' \<longrightarrow> loc out i c = Some (Text ''Drama''))"
proof -
  obtain r where r: "(i, r) \<in> set (rows df)" "length r = length (columns df)"
      "(i, clean_row lib (date_mode lib df) (columns df) r) \<in> set (rows out)"
    using out_label [OF assms(1-4)] by blast
  obtain k where k: "col_index c (columns df) = Some k"
    using assms(6) by (auto simp: loc_def split: option.splits)
  have v: "r ! k = Str s" using loc_row [OF assms(1) r(1) k] assms(6) by simp
  have c: "c \<noteq> ''year_added''" using assms(5) by (auto simp: cat_cols_def)
  have nb: "\<not> blank s \<Longrightarrow> \<not> blank (title lib (strip s))"
    using title_not_blank [OF assms(7)] .
  have a: "loc out i c = Some (if blank s then NaN else Str (title lib (strip s)))"
    using out_loc [OF assms(1-3) r(3,2) k c] v
      final_cell_cat_Str [OF assms(5), of lib "date_mode lib df" s] nb
    by simp
  have b: "loc out i c = Some (Text ''Comedy'')" if "s = ustr ''  comedy  ''"
    using a that by (simp add: blank_examples title_comedy)
  have d: "loc out i c = Some (Text ''Drama'')" if "s = ustr ''DRAMA''"
    using a that by (simp add: blank_examples title_DRAMA)
  show ?thesis using a b d by blast
qed

theorem categorical_text_is_stripped_and_titled_witness:
  "wf raw_table \<and> set required \<subseteq> set (columns raw_table)
   \<and> cleaning demo_lib raw_table = Inr cleaned_table
   \<and> 0 \<in> set (labels cleaned_table) \<and> 3 \<in> set (labels cleaned_table)
   \<and> 5 \<in> set (labels cleaned_table)
   \<and> ''listed_in'' \<in> set cat_cols \<and> ''director'' \<in> set cat_cols
   \<and> loc raw_table 0 ''listed_in'' = Some (Text ''  comedy  '')
   \<and> loc cleaned_table 0 ''listed_in'' = Some (Text ''Comedy'')
   \<and> loc raw_table 3 ''listed_in'' = Some (Text ''DRAMA'')
   \<and> loc cleaned_table 3 ''listed_in'' = Some (Text ''Drama'')
   \<and> loc raw_table 3 ''director'' = Some (Text ''  '')
   \<and> loc cleaned_table 3 ''director'' = Some NaN
   \<and> loc raw_table 5 ''listed_in'' = Some (Str [160, 160])
   \<and> loc cleaned_table 5 ''listed_in'' = Some NaN
   \<and> loc raw_table 5 ''director'' = Some (Str gomez)
   \<and> loc cleaned_table 5 ''director'' = Some (Str Gomez)"
proof -
  have l: "0 \<in> set (labels cleaned_table)" "3 \<in> set (labels cleaned_table)"
    "5 \<in> set (labels cleaned_table)"
    by (simp_all add: labels_cleaned_table)
  have c: "''listed_in'' \<in> set cat_cols" "''director'' \<in> set cat_cols"
    by (simp_all add: cat_cols_def)
  have u: "\<forall>u. \<not> is_space u \<longrightarrow> \<not> blank (uni_title demo_lib u)"
    by (simp add: demo_lib_def blank_def is_space_def)
  have d0: "loc raw_table 0 ''listed_in'' = Some (Text ''  comedy  '')"
    by (simp add: loc_def raw_table_def)
  have d3: "loc raw_table 3 ''listed_in'' = Some (Text ''DRAMA'')"
    by (simp add: loc_def raw_table_def)
  have e3: "loc raw_table 3 ''director'' = Some (Text ''  '')"
    by (simp add: loc_def raw_table_def)
  have d5: "loc raw_table 5 ''listed_in'' = Some (Str [160, 160])"
    by (simp add: loc_def raw_table_def)
  have e5: "loc raw_table 5 ''director'' = Some (Str gomez)"
    by (simp add: loc_def raw_table_def)
  have y0: "loc cleaned_table 0 ''listed_in'' = Some (Text ''Comedy'')"
    using categorical_text_is_stripped_and_titled
      [OF wf_raw_table required_raw_table cleaning_raw_table l(1) c(1) d0 u]
    by blast
  have y3: "loc cleaned_table 3 ''listed_in'' = Some (Text ''Drama'')"
    using categorical_text_is_stripped_and_titled
      [OF wf_raw_table required_raw_table cleaning_raw_table l(2) c(1) d3 u]
    by blast
  have z3: "loc cleaned_table 3 ''director'' = Some NaN"
    using categorical_text_is_stripped_and_titled
      [OF wf_raw_table required_raw_table cleaning_raw_table l(2) c(2) e3 u, THEN conjunct1]
    by (simp add: blank_examples)
  have y5: "loc cleaned_table 5 ''listed_in'' = Some NaN"
    using categorical_text_is_stripped_and_titled
      [OF wf_raw_table required_raw_table cleaning_raw_table l(3) c(1) d5 u, THEN conjunct1]
    by (simp add: blank_examples)
  have z5: "loc cleaned_table 5 ''director'' = Some (Str Gomez)"
    using categorical_text_is_stripped_and_titled
      [OF wf_raw_table required_raw_table cleaning_raw_table l(3) c(2) e5 u, THEN conjunct1]
    by (simp add: blank_examples title_gomez)
  show ?thesis
    using wf_raw_table required_raw_table cleaning_raw_table l c d0 d3 e3 d5 e5 y0 y3 z3 y5 z5
    by blast
qed

text \<open>
  C9, as the script has it. The written file has the frame's columns as its header
  and no index column: the input columns in their order, followed by \<open>year_added\<close>
  when the input has no such column (when it has one, that column is overwritten in
  place and none is added); every line has one cell per header column. A column that
  the script does not name (any column but those of \<open>cat_cols\<close>, \<open>release_year\<close>,
  \<open>date_added\<close> and \<open>year_added\<close>) passes through, except that a blank text cell
  becomes missing, by the replacement of line 29; blank is empty or all Unicode whitespace.
\<close>

theorem output_columns_and_pass_through:
  assumes "wf df" and "set required \<subseteq> set (columns df)" and "cleaning lib df = Inr out"
  shows "cleaned_file lib df = Inr (to_csv out)
       \<and> fst (to_csv out) = (if ''year_added'' \<in> set (columns df) then columns df
                              else columns df @ [''year_added''])
       \<and> snd (to_csv out) = map snd (rows out)
       \<and> list_all (\<lambda>line. length line = length (fst (to_csv out))) (snd (to_csv out))
       \<and> (\<forall>i \<in> set (labels out). \<forall>c \<in> set (columns df).
             c \<notin> set cat_cols \<and> c \<noteq> ''release_year'' \<and> c \<noteq> ''date_added'' \<and> c \<noteq> ''year_added''
             \<longrightarrow> (\<exists>v. loc df i c = Some v \<and> loc out i c = Some (replace_blank v)))"
proof -
  have a: "cleaned_file lib df = Inr (to_csv out)" using assms(3) by (simp add: cleaned_file_def)
  have b: "fst (to_csv out) = (if ''year_added'' \<in> set (columns df) then columns df
                              else columns df @ [''year_added''])"
    using out_columns_eq [OF assms] by (simp add: to_csv_def out_columns_def)
  have c: "snd (to_csv out) = map snd (rows out)" by (simp add: to_csv_def)
  have "wf out" using wf_out [OF assms] .
  then have d: "list_all (\<lambda>line. length line = length (fst (to_csv out))) (snd (to_csv out))"
    by (auto simp: wf_def to_csv_def list_all_iff)
  have e: "\<exists>v. loc df i c = Some v \<and> loc out i c = Some (replace_blank v)"
    if i: "i \<in> set (labels out)" and c: "c \<in> set (columns df)" "c \<notin> set cat_cols"
      "c \<noteq> ''release_year''" "c \<noteq> ''date_added''" "c \<noteq> ''year_added''" for i c
  proof -
    obtain r where r: "(i, r) \<in> set (rows df)" "length r = length (columns df)"
        "(i, clean_row lib (date_mode lib df) (columns df) r) \<in> set (rows out)"
      using out_label [OF assms i] by blast
    obtain k where k: "col_index c (columns df) = Some k" using c(1) col_index_mem by blast
    have "loc df i c = Some (r ! k)" using loc_row [OF assms(1) r(1) k] .
    moreover have "loc out i c = Some (replace_blank (r ! k))"
      using out_loc [OF assms r(3,2) k c(5)] final_cell_other [OF c(2,3,4)] by simp
    ultimately show ?thesis by blast
  qed
  show ?thesis using a b c d e by blast
qed

theorem output_columns_and_pass_through_witness:
  "wf raw_table \<and> set required \<subseteq> set (columns raw_table)
   \<and> cleaning demo_lib raw_table = Inr cleaned_table
   \<and> fst (to_csv cleaned_table) = columns raw_table @ [''year_added'']
   \<and> 0 \<in> set (labels cleaned_table) \<and> 3 \<in> set (labels cleaned_table)
   \<and> 5 \<in> set (labels cleaned_table)
   \<and> loc raw_table 5 ''description'' = Some (Str [160])
   \<and> loc cleaned_table 5 ''description'' = Some NaN
   \<and> loc raw_table 0 ''description'' = Some (Text ''  '')
   \<and> loc cleaned_table 0 ''description'' = Some NaN
   \<and> loc raw_table 3 ''description'' = Some (Text ''A film'')
   \<and> loc cleaned_table 3 ''description'' = Some (Text ''A film'')"
proof -
  note t = output_columns_and_pass_through
      [OF wf_raw_table required_raw_table cleaning_raw_table]
  have l: "0 \<in> set (labels cleaned_table)" "3 \<in> set (labels cleaned_table)"
    "5 \<in> set (labels cleaned_table)"
    by (simp_all add: labels_cleaned_table)
  have c: "''description'' \<in> set (columns raw_table)" "''description'' \<notin> set cat_cols"
    "''year_added'' \<notin> set (columns raw_table)"
    by (simp_all add: raw_table_def cat_cols_def)
  have d: "loc raw_table 0 ''description'' = Some (Text ''  '')"
    "loc raw_table 3 ''description'' = Some (Text ''A film'')"
    "loc raw_table 5 ''description'' = Some (Str [160])"
    by (simp_all add: loc_def raw_table_def)
  have b: "replace_blank (Text ''  '') = NaN" "replace_blank (Text ''A film'') = Text ''A film''"
    "replace_blank (Str [160]) = NaN"
    by (simp_all add: blank_examples)
  have h: "fst (to_csv cleaned_table) = columns raw_table @ [''year_added'']"
    using t c(3) by simp
  have "\<exists>v. loc raw_table 0 ''description'' = Some v
           \<and> loc cleaned_table 0 ''description'' = Some (replace_blank v)"
    using t l(1) c(1,2) by auto
  then have y0: "loc cleaned_table 0 ''description'' = Some NaN" using d(1) b(1) by auto
  have "\<exists>v. loc raw_table 3 ''description'' = Some v
           \<and> loc cleaned_table 3 ''description'' = Some (replace_blank v)"
    using t l(2) c(1,2) by auto
  then have y3: "loc cleaned_table 3 ''description'' = Some (Text ''A film'')"
    using d(2) b(2) by auto
  have "\<exists>v. loc raw_table 5 ''description'' = Some v
           \<and> loc cleaned_table 5 ''description'' = Some (replace_blank v)"
    using t l(3) c(1,2) by auto
  then have y5: "loc cleaned_table 5 ''description'' = Some NaN" using d(3) b(3) by auto
  show ?thesis
    using wf_raw_table required_raw_table cleaning_raw_table h l d y0 y3 y5 by blast
qed

text \<open>
  C9 as stated fails on \<open>notes_table\<close>: the input already has a column \<open>year_added\<close>,
  so the written header is the input header and no column is added; and the blank
  cell of the column \<open>notes\<close>, which is outside the expected set, is written as missing.
\<close>

theorem blank_extra_cell_and_no_new_column_counterexample:
  "cleaned_file demo_lib notes_table =
     Inr ([''title'', ''type'', ''release_year'', ''date_added'', ''year_added'', ''notes''],
          [[Text ''Roma'', Text ''Movie'', Num 2017, Dt (Timestamp 2021 3 15 0 None), Num 2021, NaN]])
   \<and> columns notes_table
       = [''title'', ''type'', ''release_year'', ''date_added'', ''year_added'', ''notes'']
   \<and> loc notes_table 0 ''notes'' = Some (Text ''  '')"
  by (simp add: cleaned_file_def cleaning_notes_table to_csv_def)
    (simp add: notes_table_def loc_def)




text \<open>
  C8. The claim is that no cell can abort the run. The script does abort on
  \<open>offsets_table\<close>, which has all four columns that the script indexes and whose two
  dates both parse: they carry different UTC offsets, so the parsed column is not a
  column of timestamps, and reading \<^verbatim>\<open>.dt.year\<close> from it in line 26 raises. Nothing
  is written.
\<close>

theorem dates_with_different_offsets_abort_the_run:
  "wf offsets_table \<and> set required \<subseteq> set (columns offsets_table)
   \<and> map snd (rows offsets_table)
       = [[Text ''Dark'', Text ''Movie'', Text ''2017'', Text ''2021-03-15T10:00:00+01:00''],
          [Text ''Roma'', Text ''Movie'', Text ''2018'', Text ''2021-03-16T10:00:00+02:00'']]
   \<and> to_datetime demo_lib [Text ''2021-03-15T10:00:00+01:00'', Text ''2021-03-16T10:00:00+02:00'']
       = [Dt (Timestamp 2021 3 15 36000000000000 (Some 60)),
          Dt (Timestamp 2021 3 16 36000000000000 (Some 120))]
   \<and> cleaning demo_lib offsets_table = Inl AttributeError
   \<and> cleaned_file demo_lib offsets_table = Inl AttributeError"
  by (simp add: wf_offsets_table required_offsets_table cleaning_offsets_table cleaned_file_def)
    (simp add: offsets_table_def to_datetime_def infer_mode_def demo_lib_simps
      demo_guess_format_examples demo_parse_format_examples)

end
